theory Spec2Isabelle
  imports Main "HOL-Library.Sublist"
begin

section \<open>Data model\<close>

text \<open>
  Python exceptions that derive from \<open>Exception\<close>, as values. The named constructors are
  the ones the code itself can raise or tests for; \<open>OtherError\<close> stands for whatever an
  external library raises.
\<close>

datatype error =
    AttributeError
  | KeyError
  | ValueError
  | TypeError
  | IndexError
  | OtherError string

text \<open>
  A \<open>torch.Tensor\<close>: the flattened voxel values, the element type and the device it lives
  on. Voxel values are integers here; the code only ever asks whether one of them is non-zero.
\<close>

record tensor =
  voxels :: "int list"
  dtype :: string
  device :: string

definition to_float :: "tensor \<Rightarrow> tensor" where
  \<comment> \<open>\<open>t.float()\<close>\<close>
  "to_float t = t\<lparr>dtype := ''float32''\<rparr>"

definition to_device :: "string \<Rightarrow> tensor \<Rightarrow> tensor" where
  \<comment> \<open>\<open>t.to(device)\<close>\<close>
  "to_device d t = t\<lparr>device := d\<rparr>"

definition detach_cpu :: "tensor \<Rightarrow> tensor" where
  \<comment> \<open>\<open>t.detach().cpu()\<close>\<close>
  "detach_cpu t = t\<lparr>device := ''cpu''\<rparr>"

definition tensor_any :: "tensor \<Rightarrow> bool" where
  \<comment> \<open>\<open>t.any()\<close>: some element is non-zero\<close>
  "tensor_any t = (\<exists>v \<in> set (voxels t). v \<noteq> 0)"

text \<open>A \<open>SimpleITK.Image\<close> read from a file: an opaque handle. Such an object is truthy.\<close>

datatype image = Image nat

text \<open>A file path as the code receives it: \<open>None\<close> or a string, possibly empty.\<close>

type_synonym path = "string option"

text \<open>
  A configured transform object, as far as the code inspects it: whether it is an instance of
  \<open>RandomizableTransform\<close>, what \<open>get_transform_info()\<close> gives (\<open>Inl AttributeError\<close>
  when the method is missing, otherwise the descriptor dictionary or the exception raised),
  and the name of its class. What calling the transform computes is given by the environment
  below.
\<close>

record transform =
  randomizable :: bool
  get_transform_info :: "error + (string \<times> string) list"
  type_name :: string

type_synonym data_dict = "(string \<times> tensor) list"
type_synonym results = "(string \<times> tensor) list"

datatype message = Started | Completed

text \<open>
  Every call that leaves the two modules is recorded, in order, with its arguments. The world
  is the list of calls made so far.
\<close>

datatype event =
    EvReadImage string
  | EvCall transform tensor
  | EvCallDict transform data_dict
  | EvCollect string string string
  | EvValidate "path list" "path list"
  | EvClearScene
  | EvGetOriginalCase path string
  | EvMakeDir string string string string
  | EvSaveImage tensor string string image string
  | EvSaveMask tensor string string image string
  | EvShowPreview tensor image "image option" "tensor option" string "string option"
  | EvResetViews
  | EvSetMaximum nat
  | EvSetValue nat
  | EvSetText message
  | EvLoggingInfo message
  | EvPrint error

type_synonym world = "event list"

text \<open>
  The collaborators outside the two modules. Each one answers from the history of calls so
  far (file system, random state of the transforms, scene), and may raise.
\<close>

record env =
  sitk_ReadImage :: "world \<Rightarrow> string \<Rightarrow> error + image"
  torch_tensor :: "image \<Rightarrow> error + tensor"
  call_tensor :: "world \<Rightarrow> transform \<Rightarrow> tensor \<Rightarrow> error + tensor"
  call_dict :: "world \<Rightarrow> transform \<Rightarrow> data_dict \<Rightarrow> error + data_dict"
  extract_device_number :: "string \<Rightarrow> error + string"
  collectImagesAndMasksList :: "world \<Rightarrow> string \<Rightarrow> string \<Rightarrow> string \<Rightarrow> error + (path list \<times> path list)"
  validateCollectedImagesAndMasks :: "world \<Rightarrow> path list \<Rightarrow> path list \<Rightarrow> error + unit"
  clearScene :: "world \<Rightarrow> error + unit"
  getOriginalCase :: "world \<Rightarrow> path \<Rightarrow> string \<Rightarrow> error + (string \<times> image)"
  makeDir :: "world \<Rightarrow> string \<Rightarrow> string \<Rightarrow> string \<Rightarrow> string \<Rightarrow> error + string"
  save :: "world \<Rightarrow> tensor \<Rightarrow> string \<Rightarrow> string \<Rightarrow> image \<Rightarrow> string \<Rightarrow> error + unit"
  showPreview :: "world \<Rightarrow> tensor \<Rightarrow> image \<Rightarrow> image option \<Rightarrow> tensor option \<Rightarrow> string \<Rightarrow> string option \<Rightarrow> error + unit"
  resetViews :: "world \<Rightarrow> error + unit"

section \<open>Computations that call out and may raise\<close>

type_synonym 'a io = "world \<Rightarrow> (error + 'a) \<times> world"

definition return_io :: "'a \<Rightarrow> 'a io" where
  "return_io x = (\<lambda>w. (Inr x, w))"

definition raise_io :: "error \<Rightarrow> 'a io" where
  "raise_io e = (\<lambda>w. (Inl e, w))"

definition lift_io :: "error + 'a \<Rightarrow> 'a io" where
  "lift_io r = (\<lambda>w. (r, w))"

definition bind_io :: "'a io \<Rightarrow> ('a \<Rightarrow> 'b io) \<Rightarrow> 'b io" where
  "bind_io m f = (\<lambda>w. case m w of (Inl e, w') \<Rightarrow> (Inl e, w') | (Inr a, w') \<Rightarrow> f a w')"

definition catch_io :: "'a io \<Rightarrow> (error \<Rightarrow> 'a io) \<Rightarrow> 'a io" where
  \<comment> \<open>\<open>try: m  except ... as e: h e\<close>\<close>
  "catch_io m h = (\<lambda>w. case m w of (Inl e, w') \<Rightarrow> h e w' | (Inr a, w') \<Rightarrow> (Inr a, w'))"

definition call :: "event \<Rightarrow> (world \<Rightarrow> error + 'a) \<Rightarrow> 'a io" where
  \<comment> \<open>an outside call: answered from the history so far, and recorded\<close>
  "call ev f = (\<lambda>w. (f w, w @ [ev]))"

definition emit :: "event \<Rightarrow> unit io" where
  \<comment> \<open>an outside call that cannot fail (progress bar, label, log, print)\<close>
  "emit ev = (\<lambda>w. (Inr (), w @ [ev]))"

fun for_each :: "'a list \<Rightarrow> ('a \<Rightarrow> unit io) \<Rightarrow> unit io" where
  "for_each [] f = return_io ()"
| "for_each (x # xs) f = bind_io (f x) (\<lambda>_. for_each xs f)"

definition py_index :: "'a list \<Rightarrow> nat \<Rightarrow> error + 'a" where
  \<comment> \<open>\<open>xs[i]\<close> for an index that comes from \<open>range\<close>\<close>
  "py_index xs i = (if i < length xs then Inr (xs ! i) else Inl IndexError)"

section \<open>SlicerAugmentatorDataset\<close>

record dataset =
  imgPaths :: "path list"
  maskPaths :: "path list option"
  transformations :: "transform list"
  ds_device :: string

definition dataset_init ::
  "env \<Rightarrow> path list \<Rightarrow> path list option \<Rightarrow> transform list \<Rightarrow> string \<Rightarrow> error + dataset" where
  \<comment> \<open>\<open>__init__\<close>\<close>
  "dataset_init env imgs masks ts dev =
     (if dev \<noteq> ''CPU''
      then (case extract_device_number env dev of
              Inl e \<Rightarrow> Inl e
            | Inr d \<Rightarrow> Inr \<lparr>imgPaths = imgs, maskPaths = masks, transformations = ts, ds_device = d\<rparr>)
      else Inr \<lparr>imgPaths = imgs, maskPaths = masks, transformations = ts, ds_device = ''cpu''\<rparr>)"

definition dataset_len :: "dataset \<Rightarrow> nat" where
  \<comment> \<open>\<open>__len__\<close>\<close>
  "dataset_len ds = length (imgPaths ds)"

subsection \<open>load\<close>

definition load_body :: "env \<Rightarrow> path \<Rightarrow> tensor option io" where
  \<comment> \<open>the body of the \<open>try\<close> in \<open>load\<close>; \<open>if (path)\<close> is false for \<open>None\<close> and for \<open>''''\<close>\<close>
  "load_body env p =
     (case p of
        None \<Rightarrow> return_io None
      | Some s \<Rightarrow>
          if s = [] then return_io None
          else bind_io (call (EvReadImage s) (\<lambda>w. sitk_ReadImage env w s)) (\<lambda>img.
               bind_io (lift_io (torch_tensor env img)) (\<lambda>data.
               return_io (Some data))))"

definition load :: "env \<Rightarrow> path \<Rightarrow> tensor option io" where
  \<comment> \<open>the bare \<open>except:\<close> turns every exception into \<open>None\<close>\<close>
  "load env p = catch_io (load_body env p) (\<lambda>e. return_io None)"

subsection \<open>Naming a transform\<close>

text \<open>
  Modelled from the spec: \<open>sanitizeTransformName\<close> is defined in
  \<open>SlicerAugmentatorLib/SlicerAugmentatorUtils.py\<close>, which is not among the sources. The spec
  describes it as sanitizing the transform's own type name (strip library-specific
  suffixes/prefixes, normalize casing) into a short identifier suitable for use as a
  file-path segment. Here: the module qualifier up to the last dot is stripped, letters are
  lower-cased, and every character that is not a lower-case letter, a digit or an underscore
  is dropped. The three functions before it are its parts.
\<close>

definition path_safe_char :: "char \<Rightarrow> bool" where
  \<comment> \<open>Modelled from the spec: the characters of an identifier usable as a file-path segment\<close>
  "path_safe_char c = (c \<in> set ''abcdefghijklmnopqrstuvwxyz0123456789_'')"

definition lower_char :: "char \<Rightarrow> char" where
  \<comment> \<open>Modelled from the spec: normalize casing\<close>
  "lower_char c =
     (case map_of (zip ''ABCDEFGHIJKLMNOPQRSTUVWXYZ'' ''abcdefghijklmnopqrstuvwxyz'') c of
        Some l \<Rightarrow> l
      | None \<Rightarrow> c)"

fun after_last_dot :: "string \<Rightarrow> string" where
  \<comment> \<open>Modelled from the spec: strip the library-specific prefix (the module qualifier)\<close>
  "after_last_dot [] = []"
| "after_last_dot (c # cs) =
     (if CHR ''.'' \<in> set cs then after_last_dot cs
      else if c = CHR ''.'' then cs else c # cs)"

definition sanitizeTransformName :: "transform \<Rightarrow> string" where
  \<comment> \<open>Modelled from the spec: \<open>sanitizeTransformName\<close> of \<open>SlicerAugmentatorUtils.py\<close>\<close>
  "sanitizeTransformName t = filter path_safe_char (map lower_char (after_last_dot (type_name t)))"

definition transform_name :: "transform \<Rightarrow> error + string" where
  \<comment> \<open>\<open>try: transform.get_transform_info()["class"]  except AttributeError: sanitizeTransformName(transform)\<close>\<close>
  "transform_name t =
     (case get_transform_info t of
        Inl e \<Rightarrow> (if e = AttributeError then Inr (sanitizeTransformName t) else Inl e)
      | Inr d \<Rightarrow> (case map_of d ''class'' of None \<Rightarrow> Inl KeyError | Some c \<Rightarrow> Inr c))"

subsection \<open>apply_transform and apply_dict_transform\<close>

definition apply_transform :: "env \<Rightarrow> transform \<Rightarrow> tensor \<Rightarrow> results \<Rightarrow> results io" where
  "apply_transform env t img transformedList =
     bind_io (lift_io (transform_name t)) (\<lambda>name.
     bind_io (call (EvCall t (to_float img)) (\<lambda>w. call_tensor env w t (to_float img))) (\<lambda>transformedImg.
     return_io (transformedList @ [(name, transformedImg)])))"

definition apply_dict_transform ::
  "env \<Rightarrow> transform \<Rightarrow> data_dict \<Rightarrow> results \<Rightarrow> results option \<Rightarrow> (results \<times> results) io" where
  "apply_dict_transform env t data transformedImages transformedMasks =
     bind_io (lift_io (transform_name t)) (\<lambda>name.
       case transformedMasks of
         Some tms \<Rightarrow>
           bind_io (call (EvCallDict t data) (\<lambda>w. call_dict env w t data)) (\<lambda>out.
             case map snd out of
               [transformedImg, transformedMask] \<Rightarrow>
                 return_io (transformedImages @ [(name, transformedImg)], tms @ [(name, transformedMask)])
             | _ \<Rightarrow> raise_io ValueError)
       | None \<Rightarrow>
           bind_io (call (EvCallDict t data) (\<lambda>w. call_dict env w t data)) (\<lambda>out.
             case map_of out ''img'' of
               None \<Rightarrow> raise_io KeyError
             | Some transformedImg \<Rightarrow> return_io (transformedImages @ [(name, transformedImg)], [])))"

subsection \<open>__getitem__\<close>

definition transform_step ::
  "env \<Rightarrow> string \<Rightarrow> tensor option \<Rightarrow> tensor option \<Rightarrow> transform \<Rightarrow> results \<times> results \<Rightarrow> (results \<times> results) io" where
  \<comment> \<open>the body of \<open>for transform in self.transformations\<close>: four \<open>if\<close>s in sequence\<close>
  "transform_step env dev img msk t acc =
     bind_io
       (case (img, msk) of
          (Some i, Some m) \<Rightarrow>
            if randomizable t
            then apply_dict_transform env t [(''img'', to_device dev i), (''mask'', to_device dev m)]
                   (fst acc) (Some (snd acc))
            else return_io acc
        | _ \<Rightarrow> return_io acc) (\<lambda>acc1.
     bind_io
       (case (img, msk) of
          (Some i, None) \<Rightarrow>
            if randomizable t
            then apply_dict_transform env t [(''img'', to_device dev i)] (fst acc1) None
            else return_io acc1
        | _ \<Rightarrow> return_io acc1) (\<lambda>acc2.
     bind_io
       (case img of
          Some i \<Rightarrow>
            if \<not> randomizable t
            then bind_io (apply_transform env t (to_device dev i) (fst acc2)) (\<lambda>tis. return_io (tis, snd acc2))
            else return_io acc2
        | None \<Rightarrow> return_io acc2) (\<lambda>acc3.
       case msk of
         Some m \<Rightarrow>
           if \<not> randomizable t
           then bind_io (apply_transform env t (to_device dev m) (snd acc3)) (\<lambda>tms. return_io (fst acc3, tms))
           else return_io acc3
       | None \<Rightarrow> return_io acc3)))"

fun transform_loop ::
  "env \<Rightarrow> string \<Rightarrow> tensor option \<Rightarrow> tensor option \<Rightarrow> transform list \<Rightarrow> results \<times> results \<Rightarrow> (results \<times> results) io" where
  "transform_loop env dev img msk [] acc = return_io acc"
| "transform_loop env dev img msk (t # ts) acc =
     bind_io (transform_step env dev img msk t acc) (transform_loop env dev img msk ts)"

definition load_case :: "env \<Rightarrow> dataset \<Rightarrow> nat \<Rightarrow> (tensor option \<times> tensor option) io" where
  \<comment> \<open>the two loads at the head of \<open>__getitem__\<close>\<close>
  "load_case env ds idx =
     bind_io (lift_io (py_index (imgPaths ds) idx)) (\<lambda>ipath.
     bind_io (load env ipath) (\<lambda>img.
     bind_io
       (case maskPaths ds of
          None \<Rightarrow> return_io None
        | Some mps \<Rightarrow>
            if length mps > 0
            then bind_io (lift_io (py_index mps idx)) (\<lambda>mpath. load env mpath)
            else return_io None) (\<lambda>msk.
     return_io (img, msk))))"

definition getitem :: "env \<Rightarrow> dataset \<Rightarrow> nat \<Rightarrow> (results \<times> results) io" where
  "getitem env ds idx =
     bind_io (load_case env ds idx) (\<lambda>(img, msk).
     transform_loop env (ds_device ds) img msk (transformations ds) ([], []))"

section \<open>SlicerAugmentatorLogic\<close>

definition OUTPUT_IMG_DIR :: string where
  "OUTPUT_IMG_DIR = ''SlicerAugmentator''"

fun split_dot :: "string \<Rightarrow> string list" where
  \<comment> \<open>\<open>s.split(".")\<close>\<close>
  "split_dot [] = [] # []"
| "split_dot (c # cs) =
     (if c = CHR ''.'' then [] # split_dot cs
      else (case split_dot cs of
              p # ps \<Rightarrow> (c # p) # ps
            | [] \<Rightarrow> [c] # []))"

definition read_original :: "env \<Rightarrow> path \<Rightarrow> image io" where
  \<comment> \<open>\<open>sitk.ReadImage(masks[dirIdx])\<close>; \<open>ReadImage(None)\<close> raises before any file is touched\<close>
  "read_original env p =
     (case p of
        None \<Rightarrow> raise_io TypeError
      | Some s \<Rightarrow> call (EvReadImage s) (\<lambda>w. sitk_ReadImage env w s))"

subsection \<open>process\<close>

definition process_position ::
  "env \<Rightarrow> string \<Rightarrow> string \<Rightarrow> string \<Rightarrow> string \<Rightarrow> image \<Rightarrow> image option \<Rightarrow>
   results \<Rightarrow> results \<Rightarrow> nat \<Rightarrow> unit io" where
  \<comment> \<open>the body of \<open>for i in range(len(transformedImages))\<close> in \<open>process\<close>\<close>
  "process_position env outputPath imgPrefix maskPrefix caseName originalCaseImg originalCaseMask
       transformedImages transformedMasks i =
     bind_io (lift_io (py_index transformedImages i)) (\<lambda>imgPack.
     let mskPack = (if i < length transformedMasks then Some (transformedMasks ! i) else None);
         transformName = fst imgPack;
         img = snd imgPack;
         msk = (case mskPack of Some pack \<Rightarrow> Some (snd pack) | None \<Rightarrow> None)
     in
     bind_io (call (EvMakeDir outputPath OUTPUT_IMG_DIR caseName transformName)
                (\<lambda>w. makeDir env w outputPath OUTPUT_IMG_DIR caseName transformName)) (\<lambda>currentDir.
     let imgPrefixParts = split_dot imgPrefix;
         maskPrefixParts = split_dot maskPrefix;
         imgExt = (if length imgPrefixParts > 1 then imgPrefixParts ! 1 else ''nrrd'');
         maskExt = (if length maskPrefixParts > 1 then maskPrefixParts ! 1 else ''nrrd'')
     in
     bind_io (lift_io (py_index imgPrefixParts 0)) (\<lambda>imgName.
     bind_io (call (EvSaveImage (detach_cpu img) currentDir imgName originalCaseImg imgExt)
                (\<lambda>w. save env w (detach_cpu img) currentDir imgName originalCaseImg imgExt)) (\<lambda>_.
       case (originalCaseMask, msk) of
         (Some ocm, Some m) \<Rightarrow>
           if tensor_any m
           then bind_io (lift_io (py_index maskPrefixParts 0)) (\<lambda>maskName.
                  call (EvSaveMask (detach_cpu m) currentDir maskName ocm maskExt)
                    (\<lambda>w. save env w (detach_cpu m) currentDir maskName ocm maskExt))
           else return_io ()
       | _ \<Rightarrow> return_io ()))))"

definition process_outputs ::
  "env \<Rightarrow> path list \<Rightarrow> path list \<Rightarrow> string \<Rightarrow> string \<Rightarrow> string \<Rightarrow> string \<Rightarrow> nat \<Rightarrow>
   results \<times> results \<Rightarrow> unit io" where
  \<comment> \<open>the \<open>try\<close> block of one case in \<open>process\<close>, after \<open>dataset[dirIdx]\<close>\<close>
  "process_outputs env imgs masks outputPath imgPrefix maskPrefix filesStructure dirIdx packs =
     (let transformedImages = fst packs; transformedMasks = snd packs in
      bind_io (lift_io (py_index imgs dirIdx)) (\<lambda>ipath.
      bind_io (call (EvGetOriginalCase ipath filesStructure)
                 (\<lambda>w. getOriginalCase env w ipath filesStructure)) (\<lambda>orig.
      let caseName = fst orig; originalCaseImg = snd orig in
      bind_io
        (if transformedMasks \<noteq> []
         then bind_io (lift_io (py_index masks dirIdx)) (\<lambda>mpath.
              bind_io (read_original env mpath) (\<lambda>im. return_io (Some im)))
         else return_io None) (\<lambda>originalCaseMask.
      bind_io
        (for_each [0..<length transformedImages]
           (process_position env outputPath imgPrefix maskPrefix caseName originalCaseImg
              originalCaseMask transformedImages transformedMasks)) (\<lambda>_.
      emit (EvSetValue (dirIdx + 1)))))))"

definition process_case ::
  "env \<Rightarrow> dataset \<Rightarrow> path list \<Rightarrow> path list \<Rightarrow> string \<Rightarrow> string \<Rightarrow> string \<Rightarrow> string \<Rightarrow> nat \<Rightarrow> unit io" where
  \<comment> \<open>the body of \<open>for dirIdx in range(len(dataset))\<close>; \<open>except Exception as e: raise e\<close> re-raises\<close>
  "process_case env ds imgs masks outputPath imgPrefix maskPrefix filesStructure dirIdx =
     bind_io (getitem env ds dirIdx)
       (process_outputs env imgs masks outputPath imgPrefix maskPrefix filesStructure dirIdx)"

definition process_loop ::
  "env \<Rightarrow> dataset \<Rightarrow> path list \<Rightarrow> path list \<Rightarrow> string \<Rightarrow> string \<Rightarrow> string \<Rightarrow> string \<Rightarrow> nat list \<Rightarrow> unit io" where
  "process_loop env ds imgs masks outputPath imgPrefix maskPrefix filesStructure idxs =
     for_each idxs (process_case env ds imgs masks outputPath imgPrefix maskPrefix filesStructure)"

definition report_completed :: "unit io" where
  \<comment> \<open>\<open>infoLabel.setText(...)\<close> and \<open>logging.info(...)\<close> with the elapsed time\<close>
  "report_completed = bind_io (emit (EvSetText Completed)) (\<lambda>_. emit (EvLoggingInfo Completed))"

definition process_setup ::
  "env \<Rightarrow> string \<Rightarrow> string \<Rightarrow> string \<Rightarrow> transform list \<Rightarrow> string \<Rightarrow>
   (path list \<times> path list \<times> dataset) io" where
  \<comment> \<open>\<open>process\<close> up to and including \<open>progressBar.setMaximum(len(dataset))\<close>\<close>
  "process_setup env imagesInputPath imgPrefix maskPrefix ts dev =
     bind_io (emit (EvLoggingInfo Started)) (\<lambda>_.
     bind_io (call (EvCollect imagesInputPath imgPrefix maskPrefix)
                (\<lambda>w. collectImagesAndMasksList env w imagesInputPath imgPrefix maskPrefix)) (\<lambda>found.
     let imgs = fst found; masks = snd found in
     bind_io (call (EvValidate imgs masks) (\<lambda>w. validateCollectedImagesAndMasks env w imgs masks)) (\<lambda>_.
     bind_io (lift_io (dataset_init env imgs (Some masks) ts dev)) (\<lambda>ds.
     bind_io (emit (EvSetMaximum (dataset_len ds))) (\<lambda>_.
     return_io (imgs, masks, ds))))))"


subsection \<open>preview\<close>

definition node_name :: "string \<Rightarrow> string \<Rightarrow> string \<Rightarrow> string" where
  \<comment> \<open>\<open>f"{caseName}_{transformName}_img"\<close> and \<open>..._mask\<close>\<close>
  "node_name caseName transformName kind = caseName @ ''_'' @ transformName @ ''_'' @ kind"

definition preview_position ::
  "env \<Rightarrow> string \<Rightarrow> image \<Rightarrow> image \<Rightarrow> results \<Rightarrow> results \<Rightarrow> nat \<Rightarrow> unit io" where
  \<comment> \<open>the body of the indexed loop, taken when \<open>transformedMasks\<close> is non-empty\<close>
  "preview_position env caseName originalCaseImg originalCaseMask transformedImages transformedMasks i =
     bind_io (lift_io (py_index transformedImages i)) (\<lambda>imgPack.
     let mskPack = (if i < length transformedMasks then Some (transformedMasks ! i) else None);
         transformName = fst imgPack;
         img = snd imgPack
     in
     case mskPack of
       None \<Rightarrow> raise_io TypeError
     | Some pack \<Rightarrow>
         call (EvShowPreview img originalCaseImg (Some originalCaseMask) (Some (snd pack))
                 (node_name caseName transformName ''img'') (Some (node_name caseName transformName ''mask'')))
           (\<lambda>w. showPreview env w img originalCaseImg (Some originalCaseMask) (Some (snd pack))
                  (node_name caseName transformName ''img'') (Some (node_name caseName transformName ''mask''))))"

definition preview_image_only :: "env \<Rightarrow> string \<Rightarrow> image \<Rightarrow> string \<times> tensor \<Rightarrow> unit io" where
  \<comment> \<open>the body of \<open>for imgPack in transformedImages\<close>, taken when there are no mask results\<close>
  "preview_image_only env caseName originalCaseImg imgPack =
     (let transformName = fst imgPack; img = snd imgPack in
      call (EvShowPreview img originalCaseImg None None (node_name caseName transformName ''img'') None)
        (\<lambda>w. showPreview env w img originalCaseImg None None (node_name caseName transformName ''img'') None))"

definition preview_body :: "env \<Rightarrow> dataset \<Rightarrow> path list \<Rightarrow> path list \<Rightarrow> string \<Rightarrow> nat \<Rightarrow> unit io" where
  \<comment> \<open>the \<open>try\<close> block of one case in \<open>preview\<close>\<close>
  "preview_body env ds imgs masks filesStructure dirIdx =
     bind_io (getitem env ds dirIdx) (\<lambda>packs.
     let transformedImages = fst packs; transformedMasks = snd packs in
     bind_io (lift_io (py_index imgs dirIdx)) (\<lambda>ipath.
     bind_io (call (EvGetOriginalCase ipath filesStructure)
                (\<lambda>w. getOriginalCase env w ipath filesStructure)) (\<lambda>orig.
     let caseName = fst orig; originalCaseImg = snd orig in
     bind_io
       (if transformedMasks \<noteq> []
        then bind_io (lift_io (py_index masks dirIdx)) (\<lambda>mpath.
             bind_io (read_original env mpath) (\<lambda>originalCaseMask.
             for_each [0..<length transformedImages]
               (preview_position env caseName originalCaseImg originalCaseMask
                  transformedImages transformedMasks)))
        else for_each transformedImages (preview_image_only env caseName originalCaseImg)) (\<lambda>_.
     bind_io (call EvResetViews (resetViews env)) (\<lambda>_.
     emit (EvSetValue (dirIdx + 1)))))))"

definition preview_case :: "env \<Rightarrow> dataset \<Rightarrow> path list \<Rightarrow> path list \<Rightarrow> string \<Rightarrow> nat \<Rightarrow> unit io" where
  \<comment> \<open>\<open>try: ...  except Exception as e: print(e)\<close>\<close>
  "preview_case env ds imgs masks filesStructure dirIdx =
     catch_io (preview_body env ds imgs masks filesStructure dirIdx) (\<lambda>e. emit (EvPrint e))"

definition preview_loop :: "env \<Rightarrow> dataset \<Rightarrow> path list \<Rightarrow> path list \<Rightarrow> string \<Rightarrow> nat list \<Rightarrow> unit io" where
  "preview_loop env ds imgs masks filesStructure idxs =
     for_each idxs (preview_case env ds imgs masks filesStructure)"

definition preview_dataset :: "env \<Rightarrow> path list \<Rightarrow> path list \<Rightarrow> transform list \<Rightarrow> string \<Rightarrow> error + dataset" where
  \<comment> \<open>\<open>SlicerAugmentatorDataset(imgPaths=imgs[:1], maskPaths=masks[:1], ...)\<close>\<close>
  "preview_dataset env imgs masks ts dev = dataset_init env (take 1 imgs) (Some (take 1 masks)) ts dev"

definition preview_setup ::
  "env \<Rightarrow> string \<Rightarrow> string \<Rightarrow> string \<Rightarrow> transform list \<Rightarrow> string \<Rightarrow>
   (path list \<times> path list \<times> dataset) io" where
  \<comment> \<open>\<open>preview\<close> up to and including \<open>progressBar.setMaximum(len(dataset))\<close>\<close>
  "preview_setup env imagesInputPath imgPrefix maskPrefix ts dev =
     bind_io (emit (EvLoggingInfo Started)) (\<lambda>_.
     bind_io (call (EvCollect imagesInputPath imgPrefix maskPrefix)
                (\<lambda>w. collectImagesAndMasksList env w imagesInputPath imgPrefix maskPrefix)) (\<lambda>found.
     let imgs = fst found; masks = snd found in
     bind_io (call (EvValidate imgs masks) (\<lambda>w. validateCollectedImagesAndMasks env w imgs masks)) (\<lambda>_.
     bind_io (call EvClearScene (clearScene env)) (\<lambda>_.
     bind_io (lift_io (preview_dataset env imgs masks ts dev)) (\<lambda>ds.
     bind_io (emit (EvSetMaximum (dataset_len ds))) (\<lambda>_.
     return_io (imgs, masks, ds)))))))"

definition preview ::
  "env \<Rightarrow> string \<Rightarrow> string \<Rightarrow> string \<Rightarrow> transform list \<Rightarrow> string \<Rightarrow> string \<Rightarrow> unit io" where
  "preview env imagesInputPath imgPrefix maskPrefix ts filesStructure dev =
     bind_io (preview_setup env imagesInputPath imgPrefix maskPrefix ts dev) (\<lambda>(imgs, masks, ds).
     bind_io (preview_loop env ds imgs masks filesStructure [0..<dataset_len ds]) (\<lambda>_.
     report_completed))"

section \<open>Notions used to state the properties\<close>

definition transform_calls :: "string \<Rightarrow> tensor option \<Rightarrow> tensor option \<Rightarrow> transform \<Rightarrow> event list" where
  \<comment> \<open>the applications one pass of the loop body makes for transform \<open>t\<close>\<close>
  "transform_calls dev img msk t =
     (case (img, msk) of
        (Some i, Some m) \<Rightarrow>
          if randomizable t
          then [EvCallDict t [(''img'', to_device dev i), (''mask'', to_device dev m)]]
          else [EvCall t (to_float (to_device dev i)), EvCall t (to_float (to_device dev m))]
      | (Some i, None) \<Rightarrow>
          if randomizable t
          then [EvCallDict t [(''img'', to_device dev i)]]
          else [EvCall t (to_float (to_device dev i))]
      | (None, Some m) \<Rightarrow>
          if randomizable t then [] else [EvCall t (to_float (to_device dev m))]
      | (None, None) \<Rightarrow> [])"

definition transform_ok :: "env \<Rightarrow> transform \<Rightarrow> bool" where
  \<comment> \<open>a transform that can be named, never raises, and returns a dictionary with the keys it was given\<close>
  "transform_ok env t \<longleftrightarrow>
     (\<exists>n. transform_name t = Inr n)
     \<and> (\<forall>w x. \<exists>y. call_tensor env w t x = Inr y)
     \<and> (\<forall>w d. \<exists>out. call_dict env w t d = Inr out \<and> map fst out = map fst d)"

fun saved_mask :: "event \<Rightarrow> tensor list" where
  "saved_mask (EvSaveMask t dir name original ext) = [t]"
| "saved_mask _ = []"

definition saved_masks :: "world \<Rightarrow> tensor list" where
  \<comment> \<open>the mask tensors handed to \<open>save\<close>, in order\<close>
  "saved_masks w = concat (map saved_mask w)"

definition mask_written :: "results \<Rightarrow> nat \<Rightarrow> tensor list" where
  \<comment> \<open>position \<open>i\<close>: the mask result there, if there is one and it has a non-zero element\<close>
  "mask_written transformedMasks i =
     (if i < length transformedMasks \<and> tensor_any (snd (transformedMasks ! i))
      then [detach_cpu (snd (transformedMasks ! i))] else [])"

definition masks_written :: "results \<Rightarrow> results \<Rightarrow> tensor list" where
  \<comment> \<open>over the positions of \<open>transformedImages\<close>, in order\<close>
  "masks_written transformedImages transformedMasks =
     concat (map (mask_written transformedMasks) [0..<length transformedImages])"

fun is_output :: "event \<Rightarrow> bool" where
  \<comment> \<open>the calls that create or write something under the output directory\<close>
  "is_output (EvMakeDir outputPath dir caseName transformName) = True"
| "is_output (EvSaveImage t dir name original ext) = True"
| "is_output (EvSaveMask t dir name original ext) = True"
| "is_output _ = False"

definition emits_only :: "(event \<Rightarrow> bool) \<Rightarrow> 'a io \<Rightarrow> bool" where
  \<comment> \<open>whatever the outcome, the computation only adds calls of kind \<open>P\<close> to the history\<close>
  "emits_only P m \<longleftrightarrow>
     (\<forall>w r w'. m w = (r, w') \<longrightarrow> (\<exists>evs. w' = w @ evs \<and> (\<forall>ev \<in> set evs. P ev)))"

definition result_names :: "results \<Rightarrow> (error + string) list" where
  "result_names rs = map (\<lambda>r. Inr (fst r)) rs"

section \<open>A worked scenario\<close>

text \<open>
  A concrete environment on which the definitions can be run: a randomizable transform that
  carries the introspection method, a deterministic one that does not, a small file table,
  and collaborators that succeed except where stated.
\<close>

definition demo_flip :: transform where
  "demo_flip = \<lparr>randomizable = True,
           get_transform_info = Inr [(''class'', ''flip''), (''id'', ''140'')],
           type_name = ''RandFlipd''\<rparr>"

definition demo_normalize :: transform where
  "demo_normalize = \<lparr>randomizable = False,
                get_transform_info = Inl AttributeError,
                type_name = ''transforms.Normalize''\<rparr>"

definition demo_files :: "(string \<times> image) list" where
  "demo_files =
     [(''c1/img.nrrd'', Image 10), (''c1/mask.nrrd'', Image 11),
      (''c2/img.nrrd'', Image 20), (''c2/mask.nrrd'', Image 21),
      (''c3/img.nrrd'', Image 30), (''c3/mask.nrrd'', Image 31),
      (''c4/mask.nrrd'', Image 41),
      (''c5/img.nrrd'', Image 50)]"

definition demo_pixels :: "(image \<times> int list) list" where
  "demo_pixels =
     [(Image 10, [3, 5, 7, 9]), (Image 11, [0, 1, 1, 0]),
      (Image 20, [2, 4, 6, 8]), (Image 21, [0, 0, 0, 0]),
      (Image 30, [1, 1, 2, 3]), (Image 31, [1, 0, 0, 1]),
      (Image 41, [0, 0, 1, 1]),
      (Image 50, [4, 4, 4, 4])]"

definition demo_cases :: "string \<Rightarrow> path list \<times> path list" where
  "demo_cases folder =
     (if folder = ''pairs''
      then ([Some ''c1/img.nrrd'', Some ''c2/img.nrrd''], [Some ''c1/mask.nrrd'', Some ''c2/mask.nrrd''])
      else if folder = ''five''
      then ([Some ''c1/img.nrrd'', Some ''c2/img.nrrd'', Some ''c3/img.nrrd'', Some ''c4/img.nrrd'',
             Some ''c5/img.nrrd''],
            [Some ''c1/mask.nrrd'', Some ''c2/mask.nrrd'', Some ''c3/mask.nrrd'', Some ''c4/mask.nrrd'',
             None])
      else if folder = ''broken''
      then ([Some ''c1/img.nrrd'', Some ''bad/img.nrrd'', Some ''c3/img.nrrd''], [])
      else if folder = ''bad''
      then ([Some ''bad/img.nrrd''], [])
      else ([], []))"

definition demo_env :: env where
  "demo_env =
     \<lparr>sitk_ReadImage = (\<lambda>w s. case map_of demo_files s of
                                 Some i \<Rightarrow> Inr i
                               | None \<Rightarrow> Inl (OtherError ''cannot read'')),
      torch_tensor = (\<lambda>i. case map_of demo_pixels i of
                             Some vs \<Rightarrow> Inr \<lparr>voxels = vs, dtype = ''int16'', device = ''cpu''\<rparr>
                           | None \<Rightarrow> Inl TypeError),
      call_tensor = (\<lambda>w t x. Inr (x\<lparr>voxels := map (\<lambda>v. 2 * v) (voxels x)\<rparr>)),
      call_dict = (\<lambda>w t d. Inr (map (\<lambda>kv. (fst kv, (snd kv)\<lparr>voxels := rev (voxels (snd kv))\<rparr>)) d)),
      extract_device_number = (\<lambda>s. Inr ''cuda:0''),
      collectImagesAndMasksList = (\<lambda>w folder imgPrefix maskPrefix. Inr (demo_cases folder)),
      validateCollectedImagesAndMasks = (\<lambda>w imgs masks. Inr ()),
      clearScene = (\<lambda>w. Inr ()),
      getOriginalCase = (\<lambda>w p filesStructure.
                           case p of
                             None \<Rightarrow> Inl TypeError
                           | Some s \<Rightarrow> if s = ''bad/img.nrrd'' then Inl (OtherError ''cannot read'')
                                       else Inr (take 2 s, Image 0)),
      makeDir = (\<lambda>w outputPath dir caseName transformName.
                   Inr (outputPath @ ''/'' @ dir @ ''/'' @ caseName @ ''/'' @ transformName)),
      save = (\<lambda>w t dir name original ext. Inr ()),
      showPreview = (\<lambda>w img originalCaseImg originalCaseMask msk imgNodeName maskNodeName. Inr ()),
      resetViews = (\<lambda>w. Inr ())\<rparr>"

definition demo_tensor :: "int list \<Rightarrow> string \<Rightarrow> tensor" where
  "demo_tensor vs ty = \<lparr>voxels = vs, dtype = ty, device = ''cpu''\<rparr>"

definition demo_dataset :: "path list \<Rightarrow> path list option \<Rightarrow> dataset" where
  "demo_dataset imgs masks =
     \<lparr>imgPaths = imgs, maskPaths = masks, transformations = [demo_flip, demo_normalize], ds_device = ''cpu''\<rparr>"

section \<open>Laws of the computations\<close>

lemma bind_io_Inr: "m w = (Inr a, w') \<Longrightarrow> bind_io m f w = f a w'"
  by (simp add: bind_io_def)


lemma bind_io_return [simp]: "bind_io (return_io x) f = f x"
  by (simp add: bind_io_def return_io_def)

lemma bind_io_raise [simp]: "bind_io (raise_io e) f = raise_io e"
  by (simp add: bind_io_def raise_io_def)

lemma bind_io_return_right: "bind_io m return_io = m"
  by (rule ext) (simp add: bind_io_def return_io_def split: prod.splits sum.splits)

lemma bind_io_return_eta: "bind_io m (\<lambda>x. return_io x) = m"
  by (rule ext) (simp add: bind_io_def return_io_def split: prod.splits sum.splits)

lemma bind_io_assoc: "bind_io (bind_io m f) g = bind_io m (\<lambda>x. bind_io (f x) g)"
  by (rule ext) (simp add: bind_io_def split: prod.splits sum.splits)

lemma bind_io_eq_Inr:
  "bind_io m f w = (Inr r, w') \<longleftrightarrow> (\<exists>a w1. m w = (Inr a, w1) \<and> f a w1 = (Inr r, w'))"
  by (auto simp: bind_io_def split: prod.splits sum.splits)

lemma bind_io_eq_Inl:
  "bind_io m f w = (Inl e, w') \<longleftrightarrow>
     m w = (Inl e, w') \<or> (\<exists>a w1. m w = (Inr a, w1) \<and> f a w1 = (Inl e, w'))"
  by (auto simp: bind_io_def split: prod.splits sum.splits)

lemma return_io_eq [simp]: "return_io x w = (r, w') \<longleftrightarrow> r = Inr x \<and> w' = w"
  by (auto simp: return_io_def)

lemma raise_io_eq [simp]: "raise_io e w = (r, w') \<longleftrightarrow> r = Inl e \<and> w' = w"
  by (auto simp: raise_io_def)

lemma lift_io_eq [simp]: "lift_io x w = (r, w') \<longleftrightarrow> x = r \<and> w' = w"
  by (auto simp: lift_io_def)

lemma call_eq [simp]: "call ev f w = (r, w') \<longleftrightarrow> f w = r \<and> w' = w @ [ev]"
  by (auto simp: call_def)

lemma emit_eq [simp]: "emit ev w = (r, w') \<longleftrightarrow> r = Inr () \<and> w' = w @ [ev]"
  by (auto simp: emit_def)


lemma transform_loop_append:
  "transform_loop env dev img msk (xs @ ys) acc =
     bind_io (transform_loop env dev img msk xs acc) (transform_loop env dev img msk ys)"
proof (induction xs arbitrary: acc)
  case Nil
  show ?case by simp
next
  case (Cons x xs)
  have "transform_loop env dev img msk (xs @ ys) =
          (\<lambda>a. bind_io (transform_loop env dev img msk xs a) (transform_loop env dev img msk ys))"
    by (rule ext) (rule Cons.IH)
  then show ?case by (simp add: bind_io_assoc)
qed

lemma apply_transform_Inr:
  "apply_transform env t x lst w = (Inr r, w') \<longleftrightarrow>
     (\<exists>n y. transform_name t = Inr n \<and> call_tensor env w t (to_float x) = Inr y
            \<and> r = lst @ [(n, y)] \<and> w' = w @ [EvCall t (to_float x)])"
  by (auto simp: apply_transform_def bind_io_eq_Inr)

lemma apply_dict_both_Inr:
  "apply_dict_transform env t d ti (Some tm) w = (Inr r, w') \<longleftrightarrow>
     (\<exists>n out a b. transform_name t = Inr n \<and> call_dict env w t d = Inr out \<and> map snd out = [a, b]
            \<and> r = (ti @ [(n, a)], tm @ [(n, b)]) \<and> w' = w @ [EvCallDict t d])"
  by (cases "transform_name t"; cases "call_dict env w t d")
     (auto simp: apply_dict_transform_def bind_io_def lift_io_def call_def return_io_def raise_io_def
           split: list.splits)

lemma apply_dict_img_Inr:
  "apply_dict_transform env t d ti None w = (Inr r, w') \<longleftrightarrow>
     (\<exists>n out a. transform_name t = Inr n \<and> call_dict env w t d = Inr out \<and> map_of out ''img'' = Some a
            \<and> r = (ti @ [(n, a)], []) \<and> w' = w @ [EvCallDict t d])"
  by (cases "transform_name t"; cases "call_dict env w t d")
     (auto simp: apply_dict_transform_def bind_io_def lift_io_def call_def return_io_def raise_io_def
           split: option.splits)

lemma step_both_rand:
  "randomizable t \<Longrightarrow>
   transform_step env dev (Some i) (Some m) t acc =
     apply_dict_transform env t [(''img'', to_device dev i), (''mask'', to_device dev m)]
       (fst acc) (Some (snd acc))"
  by (simp add: transform_step_def bind_io_return_eta)

lemma step_img_rand:
  "randomizable t \<Longrightarrow>
   transform_step env dev (Some i) None t acc =
     apply_dict_transform env t [(''img'', to_device dev i)] (fst acc) None"
  by (simp add: transform_step_def bind_io_return_eta)

lemma step_both_det:
  "\<not> randomizable t \<Longrightarrow>
   transform_step env dev (Some i) (Some m) t acc =
     bind_io (apply_transform env t (to_device dev i) (fst acc)) (\<lambda>tis.
     bind_io (apply_transform env t (to_device dev m) (snd acc)) (\<lambda>tms. return_io (tis, tms)))"
  by (simp add: transform_step_def bind_io_assoc)

lemma step_img_det:
  "\<not> randomizable t \<Longrightarrow>
   transform_step env dev (Some i) None t acc =
     bind_io (apply_transform env t (to_device dev i) (fst acc)) (\<lambda>tis. return_io (tis, snd acc))"
  by (simp add: transform_step_def bind_io_assoc bind_io_return_eta)

lemma step_mask_det:
  "\<not> randomizable t \<Longrightarrow>
   transform_step env dev None (Some m) t acc =
     bind_io (apply_transform env t (to_device dev m) (snd acc)) (\<lambda>tms. return_io (fst acc, tms))"
  by (simp add: transform_step_def)

lemma step_mask_rand:
  "randomizable t \<Longrightarrow> transform_step env dev None msk t acc = return_io acc"
  by (simp add: transform_step_def split: option.splits)

lemma step_none:
  "transform_step env dev None None t acc = return_io acc"
  by (simp add: transform_step_def)

section \<open>One pass over the configured transforms\<close>

lemma result_names_append [simp]: "result_names (xs @ ys) = result_names xs @ result_names ys"
  by (simp add: result_names_def)

lemma result_names_Nil [simp]: "result_names [] = []"
  by (simp add: result_names_def)

lemma result_names_Cons [simp]: "result_names ((n, x) # rs) = Inr n # result_names rs"
  by (simp add: result_names_def)

lemma result_names_length: "result_names rs = ns \<Longrightarrow> length rs = length ns"
  unfolding result_names_def by (metis length_map)

lemma step_both_Inr:
  assumes "transform_step env dev (Some i) (Some m) t (ai, am) w = (Inr (ri, rm), w')"
  shows "\<exists>n a b. transform_name t = Inr n \<and> ri = ai @ [(n, a)] \<and> rm = am @ [(n, b)]
           \<and> w' = w @ transform_calls dev (Some i) (Some m) t"
proof (cases "randomizable t")
  case True
  with assms show ?thesis
    by (auto simp: step_both_rand apply_dict_both_Inr transform_calls_def)
next
  case False
  with assms show ?thesis
    by (auto simp: step_both_det bind_io_eq_Inr apply_transform_Inr transform_calls_def)
qed

lemma step_img_Inr:
  assumes "transform_step env dev (Some i) None t (ai, []) w = (Inr (ri, rm), w')"
  shows "\<exists>n a. transform_name t = Inr n \<and> ri = ai @ [(n, a)] \<and> rm = []
           \<and> w' = w @ transform_calls dev (Some i) None t"
proof (cases "randomizable t")
  case True
  with assms show ?thesis
    by (auto simp: step_img_rand apply_dict_img_Inr transform_calls_def)
next
  case False
  with assms show ?thesis
    by (auto simp: step_img_det bind_io_eq_Inr apply_transform_Inr transform_calls_def)
qed

lemma step_mask_Inr:
  assumes "transform_step env dev None (Some m) t (ai, am) w = (Inr (ri, rm), w')"
  shows "ri = ai \<and> w' = w @ transform_calls dev None (Some m) t
         \<and> (if randomizable t then rm = am
            else \<exists>n b. transform_name t = Inr n \<and> rm = am @ [(n, b)])"
proof (cases "randomizable t")
  case True
  with assms show ?thesis
    by (auto simp: step_mask_rand transform_calls_def)
next
  case False
  with assms show ?thesis
    by (auto simp: step_mask_det bind_io_eq_Inr apply_transform_Inr transform_calls_def)
qed

lemma loop_both_Inr:
  "transform_loop env dev (Some i) (Some m) ts (ai, am) w = (Inr (ri, rm), w') \<Longrightarrow>
     \<exists>xi xm. ri = ai @ xi \<and> rm = am @ xm
        \<and> result_names xi = map transform_name ts \<and> result_names xm = map transform_name ts
        \<and> w' = w @ concat (map (transform_calls dev (Some i) (Some m)) ts)"
proof (induction ts arbitrary: ai am w)
  case Nil
  then show ?case by simp
next
  case (Cons t ts)
  from Cons.prems obtain si sm w1 where
    step: "transform_step env dev (Some i) (Some m) t (ai, am) w = (Inr (si, sm), w1)" and
    rest: "transform_loop env dev (Some i) (Some m) ts (si, sm) w1 = (Inr (ri, rm), w')"
    by (auto simp: bind_io_eq_Inr)
  from step_both_Inr [OF step] obtain n a b where
    s: "transform_name t = Inr n" "si = ai @ [(n, a)]" "sm = am @ [(n, b)]"
       "w1 = w @ transform_calls dev (Some i) (Some m) t"
    by blast
  from Cons.IH [OF rest] obtain xi xm where
    r: "ri = si @ xi" "rm = sm @ xm" "result_names xi = map transform_name ts"
       "result_names xm = map transform_name ts"
       "w' = w1 @ concat (map (transform_calls dev (Some i) (Some m)) ts)"
    by blast
  show ?case
  proof (intro exI conjI)
    show "ri = ai @ ((n, a) # xi)" using s r by simp
    show "rm = am @ ((n, b) # xm)" using s r by simp
    show "result_names ((n, a) # xi) = map transform_name (t # ts)" using s r by simp
    show "result_names ((n, b) # xm) = map transform_name (t # ts)" using s r by simp
    show "w' = w @ concat (map (transform_calls dev (Some i) (Some m)) (t # ts))" using s r by simp
  qed
qed

lemma loop_img_Inr:
  "transform_loop env dev (Some i) None ts (ai, []) w = (Inr (ri, rm), w') \<Longrightarrow>
     rm = [] \<and> (\<exists>xi. ri = ai @ xi \<and> result_names xi = map transform_name ts)
     \<and> w' = w @ concat (map (transform_calls dev (Some i) None) ts)"
proof (induction ts arbitrary: ai w)
  case Nil
  then show ?case by simp
next
  case (Cons t ts)
  from Cons.prems obtain si sm w1 where
    step: "transform_step env dev (Some i) None t (ai, []) w = (Inr (si, sm), w1)" and
    rest: "transform_loop env dev (Some i) None ts (si, sm) w1 = (Inr (ri, rm), w')"
    by (auto simp: bind_io_eq_Inr)
  from step_img_Inr [OF step] obtain n a where
    s: "transform_name t = Inr n" "si = ai @ [(n, a)]" "sm = []"
       "w1 = w @ transform_calls dev (Some i) None t"
    by blast
  from rest s have rest': "transform_loop env dev (Some i) None ts (si, []) w1 = (Inr (ri, rm), w')"
    by simp
  from Cons.IH [OF rest'] obtain xi where
    r: "rm = []" "ri = si @ xi" "result_names xi = map transform_name ts"
       "w' = w1 @ concat (map (transform_calls dev (Some i) None) ts)"
    by blast
  have "ri = ai @ ((n, a) # xi) \<and> result_names ((n, a) # xi) = map transform_name (t # ts)"
    using s r by simp
  then show ?case using s r by auto
qed

lemma loop_mask_Inr:
  "transform_loop env dev None (Some m) ts (ai, am) w = (Inr (ri, rm), w') \<Longrightarrow>
     ri = ai
     \<and> (\<exists>xm. rm = am @ xm \<and> result_names xm = map transform_name (filter (\<lambda>t. \<not> randomizable t) ts))
     \<and> w' = w @ concat (map (transform_calls dev None (Some m)) ts)"
proof (induction ts arbitrary: am w)
  case Nil
  then show ?case by simp
next
  case (Cons t ts)
  from Cons.prems obtain si sm w1 where
    step: "transform_step env dev None (Some m) t (ai, am) w = (Inr (si, sm), w1)" and
    rest: "transform_loop env dev None (Some m) ts (si, sm) w1 = (Inr (ri, rm), w')"
    by (auto simp: bind_io_eq_Inr)
  from step_mask_Inr [OF step] have
    s: "si = ai" "w1 = w @ transform_calls dev None (Some m) t"
       "if randomizable t then sm = am else \<exists>n b. transform_name t = Inr n \<and> sm = am @ [(n, b)]"
    by blast+
  from rest s have rest': "transform_loop env dev None (Some m) ts (ai, sm) w1 = (Inr (ri, rm), w')"
    by simp
  from Cons.IH [OF rest'] obtain xm where
    r: "ri = ai" "rm = sm @ xm"
       "result_names xm = map transform_name (filter (\<lambda>t. \<not> randomizable t) ts)"
       "w' = w1 @ concat (map (transform_calls dev None (Some m)) ts)"
    by blast
  show ?case
  proof (cases "randomizable t")
    case True
    with s r show ?thesis by auto
  next
    case False
    with s obtain n b where nb: "transform_name t = Inr n" "sm = am @ [(n, b)]" by auto
    have "rm = am @ ((n, b) # xm)
          \<and> result_names ((n, b) # xm) = map transform_name (filter (\<lambda>t. \<not> randomizable t) (t # ts))"
      using nb r False by simp
    then show ?thesis using s r by auto
  qed
qed

lemma loop_none: "transform_loop env dev None None ts acc = return_io acc"
  by (induction ts arbitrary: acc) (simp_all add: step_none)

lemma step_returns:
  assumes "transform_ok env t"
  shows "\<exists>r w'. transform_step env dev img msk t acc w = (Inr r, w')"
proof -
  from assms obtain n where n: "transform_name t = Inr n" by (auto simp: transform_ok_def)
  from assms have ct: "\<And>w x. \<exists>y. call_tensor env w t x = Inr y" by (auto simp: transform_ok_def)
  from assms have cd: "\<And>w d. \<exists>out. call_dict env w t d = Inr out \<and> map fst out = map fst d"
    by (auto simp: transform_ok_def)
  show ?thesis
  proof (cases img)
    case None
    show ?thesis
    proof (cases msk)
      case None
      with \<open>img = None\<close> show ?thesis by (simp add: step_none)
    next
      case (Some m)
      show ?thesis
      proof (cases "randomizable t")
        case True
        with \<open>img = None\<close> show ?thesis by (simp add: step_mask_rand)
      next
        case False
        obtain y where "call_tensor env w t (to_float (to_device dev m)) = Inr y" using ct by blast
        with False n \<open>img = None\<close> Some show ?thesis
          by (simp add: step_mask_det bind_io_eq_Inr apply_transform_Inr)
      qed
    qed
  next
    case (Some i)
    note img = Some
    show ?thesis
    proof (cases msk)
      case None
      show ?thesis
      proof (cases "randomizable t")
        case True
        obtain out where out: "call_dict env w t [(''img'', to_device dev i)] = Inr out"
          "map fst out = map fst [(''img'', to_device dev i)]" using cd by blast
        then obtain a where "out = [(''img'', a)]" by (cases out) auto
        with out True n img None show ?thesis
          by (cases acc) (simp add: step_img_rand apply_dict_img_Inr)
      next
        case False
        obtain y where "call_tensor env w t (to_float (to_device dev i)) = Inr y" using ct by blast
        with False n img None show ?thesis
          by (simp add: step_img_det bind_io_eq_Inr apply_transform_Inr)
      qed
    next
      case (Some m)
      show ?thesis
      proof (cases "randomizable t")
        case True
        obtain out where out:
          "call_dict env w t [(''img'', to_device dev i), (''mask'', to_device dev m)] = Inr out"
          "map fst out = map fst [(''img'', to_device dev i), (''mask'', to_device dev m)]"
          using cd by blast
        then obtain a b where "out = [(''img'', a), (''mask'', b)]"
          by (cases out; cases "tl out") auto
        with out True n img Some show ?thesis
          by (cases acc) (simp add: step_both_rand apply_dict_both_Inr)
      next
        case False
        obtain y where y: "call_tensor env w t (to_float (to_device dev i)) = Inr y" using ct by blast
        obtain z where
          "call_tensor env (w @ [EvCall t (to_float (to_device dev i))]) t (to_float (to_device dev m)) = Inr z"
          using ct by blast
        with y False n img Some show ?thesis
          by (simp add: step_both_det bind_io_eq_Inr apply_transform_Inr)
      qed
    qed
  qed
qed

lemma loop_returns:
  "\<forall>t \<in> set ts. transform_ok env t \<Longrightarrow>
   \<exists>r w'. transform_loop env dev img msk ts acc w = (Inr r, w')"
proof (induction ts arbitrary: acc w)
  case Nil
  then show ?case by simp
next
  case (Cons t ts)
  then obtain r1 w1 where "transform_step env dev img msk t acc w = (Inr r1, w1)"
    using step_returns [of env t dev img msk acc w] by auto
  moreover obtain r w' where "transform_loop env dev img msk ts r1 w1 = (Inr r, w')"
    using Cons.IH [of r1 w1] Cons.prems by auto
  ultimately show ?case by (auto simp: bind_io_eq_Inr)
qed

section \<open>\<open>__getitem__\<close> and \<open>load\<close>: auxiliary facts\<close>

lemma getitem_loaded:
  "load_case env ds idx w = (Inr (img, msk), w1) \<Longrightarrow>
   getitem env ds idx w = transform_loop env (ds_device ds) img msk (transformations ds) ([], []) w1"
  by (simp add: getitem_def bind_io_def)

lemma getitem_Inr:
  "getitem env ds idx w = (Inr r, w') \<longleftrightarrow>
     (\<exists>img msk w1. load_case env ds idx w = (Inr (img, msk), w1)
        \<and> transform_loop env (ds_device ds) img msk (transformations ds) ([], []) w1 = (Inr r, w'))"
  by (auto simp: getitem_def bind_io_eq_Inr)

lemma load_never_raises: "\<exists>v. fst (load env p w) = Inr v"
  by (simp add: load_def catch_io_def return_io_def split: prod.splits sum.splits)

lemma load_Inr: "\<exists>v w1. load env p w = (Inr v, w1)"
  using load_never_raises [of env p w] by (cases "load env p w") auto

lemma load_case_returns:
  assumes "idx < length (imgPaths ds)"
      and "\<And>mps. maskPaths ds = Some mps \<Longrightarrow> mps \<noteq> [] \<Longrightarrow> idx < length mps"
  shows "\<exists>img msk w1. load_case env ds idx w = (Inr (img, msk), w1)"
proof -
  obtain img w0 where img: "load env (imgPaths ds ! idx) w = (Inr img, w0)"
    using load_Inr by blast
  show ?thesis
  proof (cases "maskPaths ds")
    case None
    with assms img show ?thesis
      by (simp add: load_case_def bind_io_eq_Inr py_index_def)
  next
    case (Some mps)
    show ?thesis
    proof (cases "mps = []")
      case True
      with assms img Some show ?thesis
        by (simp add: load_case_def bind_io_eq_Inr py_index_def)
    next
      case False
      obtain msk w1 where "load env (mps ! idx) w0 = (Inr msk, w1)" using load_Inr by blast
      with assms img Some False show ?thesis
        by (simp add: load_case_def bind_io_eq_Inr py_index_def)
    qed
  qed
qed

lemma calls_mask_only:
  "concat (map (transform_calls dev None (Some m)) ts) =
     map (\<lambda>t. EvCall t (to_float (to_device dev m))) (filter (\<lambda>t. \<not> randomizable t) ts)"
  by (induction ts) (simp_all add: transform_calls_def)

lemma step_mask_value:
  assumes "transform_step env dev None (Some m) t (ai, am) w = (Inr (ri, rm), w')"
      and "\<not> randomizable t"
  shows "\<exists>n y. transform_name t = Inr n
           \<and> call_tensor env w t (to_float (to_device dev m)) = Inr y
           \<and> rm = am @ [(n, y)] \<and> ri = ai
           \<and> w' = w @ [EvCall t (to_float (to_device dev m))]"
  using assms by (auto simp: step_mask_det bind_io_eq_Inr apply_transform_Inr)

lemma loop_mask_values:
  "transform_loop env dev None (Some m) ts (ai, am) w = (Inr (ri, rm), w') \<Longrightarrow>
     \<exists>xm. rm = am @ xm
       \<and> length xm = length (filter (\<lambda>t. \<not> randomizable t) ts)
       \<and> (\<forall>j < length (filter (\<lambda>t. \<not> randomizable t) ts).
             \<exists>n y. transform_name (filter (\<lambda>t. \<not> randomizable t) ts ! j) = Inr n
               \<and> call_tensor env
                    (w @ map (\<lambda>t. EvCall t (to_float (to_device dev m)))
                           (take j (filter (\<lambda>t. \<not> randomizable t) ts)))
                    (filter (\<lambda>t. \<not> randomizable t) ts ! j)
                    (to_float (to_device dev m)) = Inr y
               \<and> xm ! j = (n, y))"
proof (induction ts arbitrary: am w)
  case Nil
  then show ?case by simp
next
  case (Cons t ts)
  let ?x = "to_float (to_device dev m)"
  let ?ev = "\<lambda>t. EvCall t ?x"
  let ?ds = "filter (\<lambda>t. \<not> randomizable t) ts"
  from Cons.prems obtain si sm w1 where
    step: "transform_step env dev None (Some m) t (ai, am) w = (Inr (si, sm), w1)" and
    rest: "transform_loop env dev None (Some m) ts (si, sm) w1 = (Inr (ri, rm), w')"
    by (auto simp: bind_io_eq_Inr)
  show ?case
  proof (cases "randomizable t")
    case True
    with step have "sm = am" "w1 = w" "si = ai" by (simp_all add: step_mask_rand)
    with rest Cons.IH [of am w] True show ?thesis by simp
  next
    case False
    from step_mask_value [OF step False] obtain n y where
      s: "transform_name t = Inr n" "call_tensor env w t ?x = Inr y" "sm = am @ [(n, y)]"
         "si = ai" "w1 = w @ [?ev t]"
      by blast
    from rest s have "transform_loop env dev None (Some m) ts (ai, am @ [(n, y)]) (w @ [?ev t])
                        = (Inr (ri, rm), w')" by simp
    from Cons.IH [OF this] obtain xm where
      x: "rm = (am @ [(n, y)]) @ xm" "length xm = length ?ds"
      and v: "\<And>j. j < length ?ds \<Longrightarrow>
             \<exists>n' y'. transform_name (?ds ! j) = Inr n'
               \<and> call_tensor env ((w @ [?ev t]) @ map ?ev (take j ?ds)) (?ds ! j) ?x = Inr y'
               \<and> xm ! j = (n', y')"
      by blast
    have "\<exists>n' y'. transform_name ((t # ?ds) ! j) = Inr n'
               \<and> call_tensor env (w @ map ?ev (take j (t # ?ds))) ((t # ?ds) ! j) ?x = Inr y'
               \<and> ((n, y) # xm) ! j = (n', y')"
      if "j < length (t # ?ds)" for j
    proof (cases j)
      case 0
      with s show ?thesis by simp
    next
      case (Suc k)
      with that have "k < length ?ds" by simp
      from v [OF this] Suc show ?thesis by simp
    qed
    with x False show ?thesis by simp
  qed
qed

lemma loop_mask_returns:
  "\<forall>t \<in> set ts. \<not> randomizable t \<longrightarrow> transform_ok env t \<Longrightarrow>
   \<exists>r w'. transform_loop env dev None msk ts acc w = (Inr r, w')"
proof (induction ts arbitrary: acc w)
  case Nil
  then show ?case by simp
next
  case (Cons t ts)
  have "\<exists>r1 w1. transform_step env dev None msk t acc w = (Inr r1, w1)"
  proof (cases "randomizable t")
    case True
    then show ?thesis by (simp add: step_mask_rand)
  next
    case False
    with Cons.prems show ?thesis using step_returns [of env t dev None msk acc w] by auto
  qed
  then obtain r1 w1 where "transform_step env dev None msk t acc w = (Inr r1, w1)" by blast
  moreover obtain r w' where "transform_loop env dev None msk ts r1 w1 = (Inr r, w')"
    using Cons.IH [of r1 w1] Cons.prems by auto
  ultimately show ?case by (auto simp: bind_io_eq_Inr)
qed

lemma load_case_mask_None:
  assumes "maskPaths ds = None \<or> maskPaths ds = Some []
           \<or> (\<exists>mps mpath. maskPaths ds = Some mps \<and> py_index mps idx = Inr mpath
                 \<and> (\<forall>w0. fst (load env mpath w0) = Inr None))"
      and "load_case env ds idx w = (Inr (img, msk), w1)"
  shows "msk = None"
proof -
  from assms(1) consider
      (none) "maskPaths ds = None"
    | (empty) "maskPaths ds = Some []"
    | (entry) mps mpath where "maskPaths ds = Some mps" "py_index mps idx = Inr mpath"
        "\<forall>w0. fst (load env mpath w0) = Inr None"
    by auto
  then show ?thesis
  proof cases
    case none
    with assms(2) show ?thesis by (auto simp: load_case_def bind_io_eq_Inr)
  next
    case empty
    with assms(2) show ?thesis by (auto simp: load_case_def bind_io_eq_Inr)
  next
    case entry
    from entry(2) have "mps \<noteq> []" by (auto simp: py_index_def)
    with assms(2) entry(1,2) obtain w0 w2 where "load env mpath w0 = (Inr msk, w2)"
      by (auto simp: load_case_def bind_io_eq_Inr)
    with entry(3) show ?thesis by (metis fst_conv sum.inject(2))
  qed
qed

lemma load_falsy_path:
  "fst (load env None w) = Inr None" "fst (load env (Some []) w) = Inr None"
  by (simp_all add: load_def load_body_def catch_io_def return_io_def)

section \<open>Running the worked scenario\<close>

lemmas io_defs = bind_io_def return_io_def raise_io_def lift_io_def call_def emit_def catch_io_def

lemmas demo_defs = demo_env_def demo_files_def demo_pixels_def demo_dataset_def demo_tensor_def
  demo_flip_def demo_normalize_def

lemma flip_name: "transform_name demo_flip = Inr ''flip''"
  by (simp add: transform_name_def demo_flip_def)

lemma normalize_name: "transform_name demo_normalize = Inr ''normalize''"
  by (simp add: transform_name_def demo_normalize_def sanitizeTransformName_def lower_char_def
        path_safe_char_def)

lemma demo_load_c1:
  "load_case demo_env (demo_dataset [Some ''c1/img.nrrd''] (Some [Some ''c1/mask.nrrd''])) 0 []
     = (Inr (Some (demo_tensor [3, 5, 7, 9] ''int16''), Some (demo_tensor [0, 1, 1, 0] ''int16'')),
        [EvReadImage ''c1/img.nrrd'', EvReadImage ''c1/mask.nrrd''])"
  by (simp add: load_case_def load_def load_body_def py_index_def io_defs demo_defs)

lemma demo_ok: "\<forall>t \<in> set [demo_flip, demo_normalize]. transform_ok demo_env t"
  by (simp add: transform_ok_def flip_name normalize_name) (simp add: demo_env_def comp_def)

lemma demo_kinds: "randomizable demo_flip" "\<not> randomizable demo_normalize"
  by (simp_all add: demo_flip_def demo_normalize_def)

lemmas run_defs = transform_step_def apply_dict_transform_def apply_transform_def
  to_device_def to_float_def io_defs

lemma demo_getitem_c1:
  "getitem demo_env (demo_dataset [Some ''c1/img.nrrd''] (Some [Some ''c1/mask.nrrd''])) 0 []
     = (Inr ([(''flip'', demo_tensor [9, 7, 5, 3] ''int16''),
              (''normalize'', demo_tensor [6, 10, 14, 18] ''float32'')],
             [(''flip'', demo_tensor [0, 1, 1, 0] ''int16''),
              (''normalize'', demo_tensor [0, 2, 2, 0] ''float32'')]),
        [EvReadImage ''c1/img.nrrd'', EvReadImage ''c1/mask.nrrd'',
         EvCallDict demo_flip [(''img'', demo_tensor [3, 5, 7, 9] ''int16''),
                          (''mask'', demo_tensor [0, 1, 1, 0] ''int16'')],
         EvCall demo_normalize (demo_tensor [3, 5, 7, 9] ''float32''),
         EvCall demo_normalize (demo_tensor [0, 1, 1, 0] ''float32'')])"
  unfolding getitem_loaded [OF demo_load_c1]
  by (simp add: demo_dataset_def run_defs flip_name normalize_name demo_kinds demo_env_def
        demo_tensor_def)

lemma demo_load_c4:
  "load_case demo_env (demo_dataset [Some ''c4/img.nrrd''] (Some [Some ''c4/mask.nrrd''])) 0 []
     = (Inr (None, Some (demo_tensor [0, 0, 1, 1] ''int16'')),
        [EvReadImage ''c4/img.nrrd'', EvReadImage ''c4/mask.nrrd''])"
  by (simp add: load_case_def load_def load_body_def py_index_def io_defs demo_defs)

section \<open>Naming: auxiliary facts\<close>

lemma sanitize_path_safe: "\<forall>c \<in> set (sanitizeTransformName t). path_safe_char c"
  by (simp add: sanitizeTransformName_def)

lemma sanitize_nonempty:
  "\<exists>c \<in> set (after_last_dot (type_name t)). path_safe_char (lower_char c) \<Longrightarrow>
   sanitizeTransformName t \<noteq> []"
  by (auto simp: sanitizeTransformName_def filter_empty_conv)

section \<open>Iterating over the cases\<close>





lemma preview_setup_Inr:
  "preview_setup env inp ip mp ts dev w = (Inr (imgs, masks, ds), w0) \<longleftrightarrow>
     collectImagesAndMasksList env (w @ [EvLoggingInfo Started]) inp ip mp = Inr (imgs, masks)
     \<and> validateCollectedImagesAndMasks env (w @ [EvLoggingInfo Started, EvCollect inp ip mp]) imgs masks
         = Inr ()
     \<and> clearScene env (w @ [EvLoggingInfo Started, EvCollect inp ip mp, EvValidate imgs masks]) = Inr ()
     \<and> preview_dataset env imgs masks ts dev = Inr ds
     \<and> w0 = w @ [EvLoggingInfo Started, EvCollect inp ip mp, EvValidate imgs masks, EvClearScene,
                  EvSetMaximum (dataset_len ds)]"
  by (auto simp: preview_setup_def bind_io_eq_Inr Let_def)

section \<open>Which calls a computation can make\<close>

lemma emits_onlyI:
  "(\<And>w r w'. m w = (r, w') \<Longrightarrow> \<exists>evs. w' = w @ evs \<and> (\<forall>ev \<in> set evs. P ev)) \<Longrightarrow> emits_only P m"
  by (simp add: emits_only_def)

lemma emits_onlyD:
  "emits_only P m \<Longrightarrow> m w = (r, w') \<Longrightarrow> \<exists>evs. w' = w @ evs \<and> (\<forall>ev \<in> set evs. P ev)"
  by (simp add: emits_only_def)

lemma emits_return [intro!, simp]: "emits_only P (return_io x)"
  by (simp add: emits_only_def)

lemma emits_raise [intro!, simp]: "emits_only P (raise_io e)"
  by (simp add: emits_only_def)

lemma emits_lift [intro!, simp]: "emits_only P (lift_io x)"
  by (simp add: emits_only_def)

lemma emits_call: "P ev \<Longrightarrow> emits_only P (call ev f)"
  by (simp add: emits_only_def)

lemma emits_emit: "P ev \<Longrightarrow> emits_only P (emit ev)"
  by (simp add: emits_only_def)

lemma emits_bind:
  assumes "emits_only P m" and "\<And>a. emits_only P (f a)"
  shows "emits_only P (bind_io m f)"
proof (rule emits_onlyI)
  fix w r w'
  assume run: "bind_io m f w = (r, w')"
  obtain r1 w1 where m: "m w = (r1, w1)" by (cases "m w")
  from emits_onlyD [OF assms(1) m] obtain e1 where e1: "w1 = w @ e1" "\<forall>ev \<in> set e1. P ev" by blast
  show "\<exists>evs. w' = w @ evs \<and> (\<forall>ev \<in> set evs. P ev)"
  proof (cases r1)
    case (Inl e)
    with run m have "w' = w1" by (simp add: bind_io_def)
    with e1 show ?thesis by blast
  next
    case (Inr a)
    with run m have "f a w1 = (r, w')" by (simp add: bind_io_def)
    from emits_onlyD [OF assms(2) this] obtain e2 where "w' = w1 @ e2" "\<forall>ev \<in> set e2. P ev" by blast
    with e1 have "w' = w @ (e1 @ e2) \<and> (\<forall>ev \<in> set (e1 @ e2). P ev)" by auto
    then show ?thesis by blast
  qed
qed

lemma emits_catch:
  assumes "emits_only P m" and "\<And>e. emits_only P (h e)"
  shows "emits_only P (catch_io m h)"
proof (rule emits_onlyI)
  fix w r w'
  assume run: "catch_io m h w = (r, w')"
  obtain r1 w1 where m: "m w = (r1, w1)" by (cases "m w")
  from emits_onlyD [OF assms(1) m] obtain e1 where e1: "w1 = w @ e1" "\<forall>ev \<in> set e1. P ev" by blast
  show "\<exists>evs. w' = w @ evs \<and> (\<forall>ev \<in> set evs. P ev)"
  proof (cases r1)
    case (Inr a)
    with run m have "w' = w1" by (simp add: catch_io_def)
    with e1 show ?thesis by blast
  next
    case (Inl e)
    with run m have "h e w1 = (r, w')" by (simp add: catch_io_def)
    from emits_onlyD [OF assms(2) this] obtain e2 where "w' = w1 @ e2" "\<forall>ev \<in> set e2. P ev" by blast
    with e1 have "w' = w @ (e1 @ e2) \<and> (\<forall>ev \<in> set (e1 @ e2). P ev)" by auto
    then show ?thesis by blast
  qed
qed

lemma emits_for_each:
  "(\<And>x. emits_only P (f x)) \<Longrightarrow> emits_only P (for_each xs f)"
  by (induction xs) (auto intro: emits_bind)

lemma emits_load: "emits_only (\<lambda>ev. \<not> is_output ev) (load env p)"
  unfolding load_def load_body_def
  by (intro emits_catch) (auto intro!: emits_bind emits_call split: option.splits)

lemma emits_apply_transform: "emits_only (\<lambda>ev. \<not> is_output ev) (apply_transform env t x lst)"
  unfolding apply_transform_def
  by (auto intro!: emits_bind emits_call)

lemma emits_apply_dict:
  "emits_only (\<lambda>ev. \<not> is_output ev) (apply_dict_transform env t d tis tms)"
  unfolding apply_dict_transform_def
  by (auto intro!: emits_bind emits_call split: option.splits list.splits)

lemma emits_step: "emits_only (\<lambda>ev. \<not> is_output ev) (transform_step env dev img msk t acc)"
  unfolding transform_step_def
  by (auto intro!: emits_bind emits_apply_dict emits_apply_transform split: option.splits)

lemma emits_loop: "emits_only (\<lambda>ev. \<not> is_output ev) (transform_loop env dev img msk ts acc)"
  by (induction ts arbitrary: acc) (auto intro!: emits_bind emits_step)

lemma emits_load_case: "emits_only (\<lambda>ev. \<not> is_output ev) (load_case env ds idx)"
  unfolding load_case_def
  by (auto intro!: emits_bind emits_load split: option.splits)

lemma emits_getitem: "emits_only (\<lambda>ev. \<not> is_output ev) (getitem env ds idx)"
  unfolding getitem_def
  by (auto intro!: emits_bind emits_load_case emits_loop)

section \<open>Masks handed to \<open>save\<close>\<close>

lemma saved_masks_append [simp]: "saved_masks (a @ b) = saved_masks a @ saved_masks b"
  by (simp add: saved_masks_def)

lemma saved_masks_Nil [simp]: "saved_masks [] = []"
  by (simp add: saved_masks_def)

lemma saved_masks_Cons [simp]: "saved_masks (ev # evs) = saved_mask ev @ saved_masks evs"
  by (simp add: saved_masks_def)

lemma saved_mask_no_output: "\<not> is_output ev \<Longrightarrow> saved_mask ev = []"
  by (cases ev) simp_all

lemma saved_masks_no_output: "\<forall>ev \<in> set evs. \<not> is_output ev \<Longrightarrow> saved_masks evs = []"
  by (induction evs) (simp_all add: saved_mask_no_output)

lemma split_dot_nonempty: "split_dot s \<noteq> []"
  by (induction s) (simp_all split: list.splits)

lemma split_dot_index0: "py_index (split_dot s) 0 = Inr (hd (split_dot s))"
  using split_dot_nonempty [of s] by (simp add: py_index_def hd_conv_nth)

lemma process_position_masks:
  assumes run: "process_position env out ip mp cn oci ocm tis tms i w = (r, w')"
      and ocm: "tms \<noteq> [] \<Longrightarrow> ocm \<noteq> None"
  shows "(saved_masks w' = saved_masks w \<or> saved_masks w' = saved_masks w @ mask_written tms i)
         \<and> (r = Inr () \<longrightarrow> saved_masks w' = saved_masks w @ mask_written tms i)"
proof (cases "py_index tis i")
  case (Inl e)
  with run show ?thesis by (auto simp: process_position_def bind_io_def lift_io_def)
next
  case (Inr imgPack)
  let ?mk = "EvMakeDir out OUTPUT_IMG_DIR cn (fst imgPack)"
  show ?thesis
  proof (cases "makeDir env w out OUTPUT_IMG_DIR cn (fst imgPack)")
    case (Inl e)
    with run Inr show ?thesis
      by (auto simp: process_position_def bind_io_def lift_io_def call_def Let_def)
  next
    case dir: (Inr currentDir)
    let ?ext = "if 1 < length (split_dot ip) then split_dot ip ! 1 else ''nrrd''"
    let ?sv = "EvSaveImage (detach_cpu (snd imgPack)) currentDir (hd (split_dot ip)) oci ?ext"
    show ?thesis
    proof (cases "save env (w @ [?mk]) (detach_cpu (snd imgPack)) currentDir (hd (split_dot ip)) oci ?ext")
      case (Inl e)
      with run Inr dir show ?thesis
        by (auto simp: process_position_def bind_io_def lift_io_def call_def Let_def split_dot_index0)
    next
      case saved: (Inr u)
      show ?thesis
      proof (cases "i < length tms \<and> tensor_any (snd (tms ! i))")
        case False
        with run Inr dir saved show ?thesis
          by (auto simp: process_position_def bind_io_def lift_io_def call_def Let_def
                split_dot_index0 return_io_def mask_written_def split: option.splits if_splits)
      next
        case True
        then have "tms \<noteq> []" by auto
        with ocm obtain orig where "ocm = Some orig" by auto
        with True run Inr dir saved show ?thesis
          by (auto simp: process_position_def bind_io_def lift_io_def call_def Let_def
                split_dot_index0 return_io_def mask_written_def)
      qed
    qed
  qed
qed

lemma positions_masks:
  assumes ocm: "tms \<noteq> [] \<Longrightarrow> ocm \<noteq> None"
  shows "for_each idxs (process_position env out ip mp cn oci ocm tis tms) w = (r, w') \<Longrightarrow>
     (\<exists>ms. saved_masks w' = saved_masks w @ ms \<and> prefix ms (concat (map (mask_written tms) idxs)))
     \<and> (r = Inr () \<longrightarrow> saved_masks w' = saved_masks w @ concat (map (mask_written tms) idxs))"
proof (induction idxs arbitrary: w)
  case Nil
  then show ?case by simp
next
  case (Cons i idxs)
  obtain r1 w1 where step: "process_position env out ip mp cn oci ocm tis tms i w = (r1, w1)"
    by (cases "process_position env out ip mp cn oci ocm tis tms i w")
  note pm = process_position_masks [OF step ocm]
  show ?case
  proof (cases r1)
    case (Inl e)
    with Cons.prems step have "w' = w1" by (simp add: bind_io_def)
    with pm Inl Cons.prems step show ?thesis
      by (auto simp: bind_io_def)
  next
    case (Inr u)
    with Cons.prems step have rest:
      "for_each idxs (process_position env out ip mp cn oci ocm tis tms) w1 = (r, w')"
      by (simp add: bind_io_def)
    from pm Inr have s1: "saved_masks w1 = saved_masks w @ mask_written tms i" by simp
    from Cons.IH [OF rest] obtain ms where
      ms: "saved_masks w' = saved_masks w1 @ ms" "prefix ms (concat (map (mask_written tms) idxs))"
      and full: "r = Inr () \<longrightarrow> saved_masks w' = saved_masks w1 @ concat (map (mask_written tms) idxs)"
      by blast
    have "saved_masks w' = saved_masks w @ (mask_written tms i @ ms)
          \<and> prefix (mask_written tms i @ ms) (concat (map (mask_written tms) (i # idxs)))"
      using s1 ms by simp
    moreover have "r = Inr () \<longrightarrow>
        saved_masks w' = saved_masks w @ concat (map (mask_written tms) (i # idxs))"
      using s1 full by simp
    ultimately show ?thesis by blast
  qed
qed

lemma masks_written_positions:
  "masks_written tis tms =
     map (\<lambda>i. detach_cpu (snd (tms ! i)))
       (filter (\<lambda>i. i < length tms \<and> tensor_any (snd (tms ! i))) [0..<length tis])"
proof -
  have "concat (map (mask_written tms) idxs) =
          map (\<lambda>i. detach_cpu (snd (tms ! i)))
            (filter (\<lambda>i. i < length tms \<and> tensor_any (snd (tms ! i))) idxs)" for idxs
    by (induction idxs) (simp_all add: mask_written_def)
  then show ?thesis by (simp add: masks_written_def)
qed

lemma masks_written_any: "\<forall>t \<in> set (masks_written tis tms). tensor_any t"
  by (auto simp: masks_written_positions tensor_any_def detach_cpu_def)

lemma emits_read_original: "emits_only (\<lambda>ev. \<not> is_output ev) (read_original env p)"
  unfolding read_original_def by (auto intro!: emits_call split: option.splits)

lemma emits_original_mask:
  "emits_only (\<lambda>ev. \<not> is_output ev)
     (if tms \<noteq> []
      then bind_io (lift_io (py_index masks dirIdx)) (\<lambda>mpath.
           bind_io (read_original env mpath) (\<lambda>im. return_io (Some im)))
      else return_io None)"
  by (auto intro!: emits_bind emits_read_original)

lemma original_mask_Some:
  assumes "(if tms \<noteq> []
      then bind_io (lift_io (py_index masks dirIdx)) (\<lambda>mpath.
           bind_io (read_original env mpath) (\<lambda>im. return_io (Some im)))
      else return_io None) w = (Inr ocm, w')"
      and "tms \<noteq> []"
  shows "ocm \<noteq> None"
  using assms by (auto simp: bind_io_eq_Inr)

lemma emits_outputs_empty:
  "emits_only (\<lambda>ev. \<not> is_output ev) (process_outputs env imgs masks out ip mp fs dirIdx ([], tms))"
  unfolding process_outputs_def Let_def
  by (auto intro!: emits_bind emits_call emits_emit emits_read_original)

lemma process_outputs_masks:
  assumes run: "process_outputs env imgs masks out ip mp fs dirIdx (tis, tms) w = (r, w')"
  shows "(\<exists>ms. saved_masks w' = saved_masks w @ ms \<and> prefix ms (masks_written tis tms))
         \<and> (r = Inr () \<longrightarrow> saved_masks w' = saved_masks w @ masks_written tis tms)"
proof (cases "py_index imgs dirIdx")
  case (Inl e)
  with run show ?thesis by (auto simp: process_outputs_def bind_io_def lift_io_def)
next
  case ipath: (Inr ipath)
  let ?w1 = "w @ [EvGetOriginalCase ipath fs]"
  show ?thesis
  proof (cases "getOriginalCase env w ipath fs")
    case (Inl e)
    with run ipath show ?thesis
      by (auto simp: process_outputs_def bind_io_def lift_io_def call_def)
  next
    case orig: (Inr orig)
    let ?m3 = "if tms \<noteq> []
      then bind_io (lift_io (py_index masks dirIdx)) (\<lambda>mpath.
           bind_io (read_original env mpath) (\<lambda>im. return_io (Some im)))
      else return_io None"
    let ?loop = "for_each [0..<length tis]
           (process_position env out ip mp (fst orig) (snd orig) ocm tis tms)"
    obtain r3 w2 where m3: "?m3 ?w1 = (r3, w2)" by (cases "?m3 ?w1")
    from emits_onlyD [OF emits_original_mask m3] have s2: "saved_masks w2 = saved_masks w"
      by (auto simp: saved_masks_no_output saved_mask_no_output)
    have rest: "bind_io ?m3 (\<lambda>originalCaseMask.
                  bind_io (for_each [0..<length tis]
                     (process_position env out ip mp (fst orig) (snd orig) originalCaseMask tis tms))
                    (\<lambda>_. emit (EvSetValue (dirIdx + 1)))) ?w1 = (r, w')"
      using run ipath orig by (simp add: process_outputs_def bind_io_def lift_io_def call_def Let_def)
    show ?thesis
    proof (cases r3)
      case (Inl e)
      with rest m3 have "w' = w2" "r = Inl e" by (simp_all add: bind_io_def)
      with s2 show ?thesis by simp
    next
      case ocm: (Inr ocm)
      have ok: "tms \<noteq> [] \<Longrightarrow> ocm \<noteq> None"
        using original_mask_Some m3 ocm by blast
      obtain r4 w3 where lp:
        "for_each [0..<length tis] (process_position env out ip mp (fst orig) (snd orig) ocm tis tms) w2
           = (r4, w3)"
        by (cases "for_each [0..<length tis]
                     (process_position env out ip mp (fst orig) (snd orig) ocm tis tms) w2")
      from positions_masks [OF ok lp] s2 obtain ms where
        ms: "saved_masks w3 = saved_masks w @ ms" "prefix ms (masks_written tis tms)"
        and full: "r4 = Inr () \<longrightarrow> saved_masks w3 = saved_masks w @ masks_written tis tms"
        by (auto simp: masks_written_def)
      show ?thesis
      proof (cases r4)
        case (Inl e)
        with rest m3 ocm lp have "w' = w3" "r = Inl e" by (simp_all add: bind_io_def)
        with ms show ?thesis by auto
      next
        case (Inr u)
        with rest m3 ocm lp have "w' = w3 @ [EvSetValue (dirIdx + 1)]"
          by (simp add: bind_io_def emit_def)
        with ms full Inr show ?thesis by auto
      qed
    qed
  qed
qed

section \<open>Running the batch driver on the worked scenario\<close>

lemmas driver_defs = process_case_def process_outputs_def process_position_def process_loop_def
  read_original_def preview_body_def preview_case_def preview_loop_def preview_position_def
  preview_image_only_def getitem_def load_case_def load_def load_body_def py_index_def
  OUTPUT_IMG_DIR_def detach_cpu_def node_name_def Let_def

lemmas demo_run = driver_defs run_defs demo_env_def demo_files_def demo_pixels_def demo_dataset_def
  demo_tensor_def flip_name normalize_name demo_kinds

lemma demo_case_c4:
  "process_case demo_env (demo_dataset [Some ''c4/img.nrrd''] (Some [Some ''c4/mask.nrrd'']))
     [Some ''c4/img.nrrd''] [Some ''c4/mask.nrrd''] ''out'' ''img.nrrd'' ''mask'' ''flat'' 0 []
   = (Inr (),
      [EvReadImage ''c4/img.nrrd'', EvReadImage ''c4/mask.nrrd'',
       EvCall demo_normalize (demo_tensor [0, 0, 1, 1] ''float32''),
       EvGetOriginalCase (Some ''c4/img.nrrd'') ''flat'',
       EvReadImage ''c4/mask.nrrd'', EvSetValue 1])"
  by (simp add: demo_run)

lemma demo_getitem_c4:
  "getitem demo_env (demo_dataset [Some ''c4/img.nrrd''] (Some [Some ''c4/mask.nrrd''])) 0 []
   = (Inr ([], [(''normalize'', demo_tensor [0, 0, 2, 2] ''float32'')]),
      [EvReadImage ''c4/img.nrrd'', EvReadImage ''c4/mask.nrrd'',
       EvCall demo_normalize (demo_tensor [0, 0, 1, 1] ''float32'')])"
  by (simp add: demo_run)

lemma demo_getitem_pairs0:
  "getitem demo_env
     (demo_dataset [Some ''c1/img.nrrd'', Some ''c2/img.nrrd'']
        (Some [Some ''c1/mask.nrrd'', Some ''c2/mask.nrrd''])) 0 []
   = (Inr ([(''flip'', demo_tensor [9, 7, 5, 3] ''int16''),
            (''normalize'', demo_tensor [6, 10, 14, 18] ''float32'')],
           [(''flip'', demo_tensor [0, 1, 1, 0] ''int16''),
            (''normalize'', demo_tensor [0, 2, 2, 0] ''float32'')]),
      [EvReadImage ''c1/img.nrrd'', EvReadImage ''c1/mask.nrrd'',
       EvCallDict demo_flip [(''img'', demo_tensor [3, 5, 7, 9] ''int16''),
                             (''mask'', demo_tensor [0, 1, 1, 0] ''int16'')],
       EvCall demo_normalize (demo_tensor [3, 5, 7, 9] ''float32''),
       EvCall demo_normalize (demo_tensor [0, 1, 1, 0] ''float32'')])"
  by (simp add: demo_run)

lemma demo_getitem_pairs1:
  "getitem demo_env
     (demo_dataset [Some ''c1/img.nrrd'', Some ''c2/img.nrrd'']
        (Some [Some ''c1/mask.nrrd'', Some ''c2/mask.nrrd''])) 1 []
   = (Inr ([(''flip'', demo_tensor [8, 6, 4, 2] ''int16''),
            (''normalize'', demo_tensor [4, 8, 12, 16] ''float32'')],
           [(''flip'', demo_tensor [0, 0, 0, 0] ''int16''),
            (''normalize'', demo_tensor [0, 0, 0, 0] ''float32'')]),
      [EvReadImage ''c2/img.nrrd'', EvReadImage ''c2/mask.nrrd'',
       EvCallDict demo_flip [(''img'', demo_tensor [2, 4, 6, 8] ''int16''),
                             (''mask'', demo_tensor [0, 0, 0, 0] ''int16'')],
       EvCall demo_normalize (demo_tensor [2, 4, 6, 8] ''float32''),
       EvCall demo_normalize (demo_tensor [0, 0, 0, 0] ''float32'')])"
  by (simp add: demo_run)

lemma demo_case_pairs0:
  "\<exists>w'. process_case demo_env
     (demo_dataset [Some ''c1/img.nrrd'', Some ''c2/img.nrrd'']
        (Some [Some ''c1/mask.nrrd'', Some ''c2/mask.nrrd'']))
     [Some ''c1/img.nrrd'', Some ''c2/img.nrrd''] [Some ''c1/mask.nrrd'', Some ''c2/mask.nrrd'']
     ''out'' ''img.nrrd'' ''mask'' ''flat'' 0 [] = (Inr (), w')"
  by (simp add: demo_run tensor_any_def)

lemma demo_case_pairs1:
  "\<exists>w'. process_case demo_env
     (demo_dataset [Some ''c1/img.nrrd'', Some ''c2/img.nrrd'']
        (Some [Some ''c1/mask.nrrd'', Some ''c2/mask.nrrd'']))
     [Some ''c1/img.nrrd'', Some ''c2/img.nrrd''] [Some ''c1/mask.nrrd'', Some ''c2/mask.nrrd'']
     ''out'' ''img.nrrd'' ''mask'' ''flat'' 1 [] = (Inr (), w')"
  by (simp add: demo_run tensor_any_def)

lemmas setup_defs = process_setup_def preview_setup_def preview_dataset_def dataset_init_def
  dataset_len_def demo_cases_def

lemma demo_preview_setup_five:
  "preview_setup demo_env ''five'' ''img.nrrd'' ''mask'' [demo_flip, demo_normalize] ''CPU'' []
   = (Inr ([Some ''c1/img.nrrd'', Some ''c2/img.nrrd'', Some ''c3/img.nrrd'', Some ''c4/img.nrrd'',
            Some ''c5/img.nrrd''],
           [Some ''c1/mask.nrrd'', Some ''c2/mask.nrrd'', Some ''c3/mask.nrrd'', Some ''c4/mask.nrrd'',
            None],
           demo_dataset [Some ''c1/img.nrrd''] (Some [Some ''c1/mask.nrrd''])),
      [EvLoggingInfo Started, EvCollect ''five'' ''img.nrrd'' ''mask'',
       EvValidate
         [Some ''c1/img.nrrd'', Some ''c2/img.nrrd'', Some ''c3/img.nrrd'', Some ''c4/img.nrrd'',
          Some ''c5/img.nrrd'']
         [Some ''c1/mask.nrrd'', Some ''c2/mask.nrrd'', Some ''c3/mask.nrrd'', Some ''c4/mask.nrrd'',
          None],
       EvClearScene, EvSetMaximum 1])"
  by (simp add: setup_defs io_defs demo_env_def demo_dataset_def Let_def)






section \<open>The properties\<close>

text \<open>
  C1. When image and mask of a case both load, \<open>__getitem__\<close> with the transform list
  [Randomizable "flip", Deterministic "normalize"] returns
  \<open>[("flip", T1), ("normalize", T2)]\<close> for the images and \<open>[("flip", M1), ("normalize", M2)]\<close>
  for the masks, where \<open>T1, M1\<close> are the two values of the one dictionary call of "flip" and
  \<open>T2, M2\<close> what "normalize" returns on the image and on the mask. For any transform list,
  the names in both result lists are the names of the configured transforms, in configuration
  order; and when no transform raises, \<open>__getitem__\<close> does return.
\<close>

theorem C1_results_in_configuration_order:
  assumes loaded: "load_case env ds idx w = (Inr (Some i, Some m), w1)"
  shows "(\<forall>f n k1 k2 T1 M1 T2 M2.
            transformations ds = [f, n] \<and> randomizable f \<and> \<not> randomizable n
            \<and> transform_name f = Inr ''flip'' \<and> transform_name n = Inr ''normalize''
            \<and> call_dict env w1 f
                 [(''img'', to_device (ds_device ds) i), (''mask'', to_device (ds_device ds) m)]
                = Inr [(k1, T1), (k2, M1)]
            \<and> call_tensor env (w1 @ transform_calls (ds_device ds) (Some i) (Some m) f) n
                 (to_float (to_device (ds_device ds) i)) = Inr T2
            \<and> call_tensor env
                 (w1 @ transform_calls (ds_device ds) (Some i) (Some m) f
                     @ [EvCall n (to_float (to_device (ds_device ds) i))]) n
                 (to_float (to_device (ds_device ds) m)) = Inr M2
            \<longrightarrow> fst (getitem env ds idx w)
                  = Inr ([(''flip'', T1), (''normalize'', T2)], [(''flip'', M1), (''normalize'', M2)]))
         \<and> (\<forall>ri rm w'. getitem env ds idx w = (Inr (ri, rm), w') \<longrightarrow>
               result_names ri = map transform_name (transformations ds)
               \<and> result_names rm = map transform_name (transformations ds))
         \<and> ((\<forall>t \<in> set (transformations ds). transform_ok env t) \<longrightarrow>
               (\<exists>ri rm w'. getitem env ds idx w = (Inr (ri, rm), w')))"
proof (intro conjI allI impI)
  fix f n k1 k2 T1 M1 T2 M2
  assume h: "transformations ds = [f, n] \<and> randomizable f \<and> \<not> randomizable n
            \<and> transform_name f = Inr ''flip'' \<and> transform_name n = Inr ''normalize''
            \<and> call_dict env w1 f
                 [(''img'', to_device (ds_device ds) i), (''mask'', to_device (ds_device ds) m)]
                = Inr [(k1, T1), (k2, M1)]
            \<and> call_tensor env (w1 @ transform_calls (ds_device ds) (Some i) (Some m) f) n
                 (to_float (to_device (ds_device ds) i)) = Inr T2
            \<and> call_tensor env
                 (w1 @ transform_calls (ds_device ds) (Some i) (Some m) f
                     @ [EvCall n (to_float (to_device (ds_device ds) i))]) n
                 (to_float (to_device (ds_device ds) m)) = Inr M2"
  let ?d = "[(''img'', to_device (ds_device ds) i), (''mask'', to_device (ds_device ds) m)]"
  have calls: "transform_calls (ds_device ds) (Some i) (Some m) f = [EvCallDict f ?d]"
    using h by (simp add: transform_calls_def)
  have s1: "transform_step env (ds_device ds) (Some i) (Some m) f ([], []) w1
              = (Inr ([(''flip'', T1)], [(''flip'', M1)]), w1 @ [EvCallDict f ?d])"
    using h by (simp add: step_both_rand apply_dict_both_Inr)
  have s2: "transform_step env (ds_device ds) (Some i) (Some m) n ([(''flip'', T1)], [(''flip'', M1)])
              (w1 @ [EvCallDict f ?d])
              = (Inr ([(''flip'', T1), (''normalize'', T2)], [(''flip'', M1), (''normalize'', M2)]),
                 w1 @ [EvCallDict f ?d] @ [EvCall n (to_float (to_device (ds_device ds) i)),
                                           EvCall n (to_float (to_device (ds_device ds) m))])"
    using h calls by (simp add: step_both_det bind_io_eq_Inr apply_transform_Inr)
  have "transform_loop env (ds_device ds) (Some i) (Some m) [f, n] ([], []) w1
          = (Inr ([(''flip'', T1), (''normalize'', T2)], [(''flip'', M1), (''normalize'', M2)]),
             w1 @ [EvCallDict f ?d] @ [EvCall n (to_float (to_device (ds_device ds) i)),
                                       EvCall n (to_float (to_device (ds_device ds) m))])"
    using s1 s2 by (simp add: bind_io_eq_Inr)
  with h show "fst (getitem env ds idx w)
                 = Inr ([(''flip'', T1), (''normalize'', T2)], [(''flip'', M1), (''normalize'', M2)])"
    by (simp add: getitem_loaded [OF loaded])
next
  fix ri rm w'
  assume "getitem env ds idx w = (Inr (ri, rm), w')"
  then have "transform_loop env (ds_device ds) (Some i) (Some m) (transformations ds) ([], []) w1
               = (Inr (ri, rm), w')"
    by (simp add: getitem_loaded [OF loaded])
  from loop_both_Inr [OF this]
  show "result_names ri = map transform_name (transformations ds)"
    and "result_names rm = map transform_name (transformations ds)"
    by auto
next
  assume "\<forall>t \<in> set (transformations ds). transform_ok env t"
  from loop_returns [OF this]
  show "\<exists>ri rm w'. getitem env ds idx w = (Inr (ri, rm), w')"
    by (simp add: getitem_loaded [OF loaded])
qed

theorem C1_results_in_configuration_order_witness:
  "load_case demo_env (demo_dataset [Some ''c1/img.nrrd''] (Some [Some ''c1/mask.nrrd''])) 0 []
     = (Inr (Some (demo_tensor [3, 5, 7, 9] ''int16''), Some (demo_tensor [0, 1, 1, 0] ''int16'')),
        [EvReadImage ''c1/img.nrrd'', EvReadImage ''c1/mask.nrrd''])
   \<and> fst (getitem demo_env (demo_dataset [Some ''c1/img.nrrd''] (Some [Some ''c1/mask.nrrd''])) 0 [])
     = Inr ([(''flip'', demo_tensor [9, 7, 5, 3] ''int16''),
             (''normalize'', demo_tensor [6, 10, 14, 18] ''float32'')],
            [(''flip'', demo_tensor [0, 1, 1, 0] ''int16''),
             (''normalize'', demo_tensor [0, 2, 2, 0] ''float32'')])
   \<and> transform_ok demo_env demo_flip \<and> transform_ok demo_env demo_normalize
   \<and> (\<exists>ri rm w'.
         getitem demo_env (demo_dataset [Some ''c1/img.nrrd''] (Some [Some ''c1/mask.nrrd''])) 0 []
           = (Inr (ri, rm), w')
         \<and> result_names ri = [Inr ''flip'', Inr ''normalize'']
         \<and> result_names rm = [Inr ''flip'', Inr ''normalize''])"
proof -
  let ?D = "demo_dataset [Some ''c1/img.nrrd''] (Some [Some ''c1/mask.nrrd''])"
  note c1 = C1_results_in_configuration_order [OF demo_load_c1]
  have ts: "transformations ?D = [demo_flip, demo_normalize]" by (simp add: demo_dataset_def)
  have a: "fst (getitem demo_env ?D 0 [])
             = Inr ([(''flip'', demo_tensor [9, 7, 5, 3] ''int16''),
                     (''normalize'', demo_tensor [6, 10, 14, 18] ''float32'')],
                    [(''flip'', demo_tensor [0, 1, 1, 0] ''int16''),
                     (''normalize'', demo_tensor [0, 2, 2, 0] ''float32'')])"
    using c1 [THEN conjunct1, rule_format, of demo_flip demo_normalize
                "''img''" "demo_tensor [9, 7, 5, 3] ''int16''"
                "''mask''" "demo_tensor [0, 1, 1, 0] ''int16''"
                "demo_tensor [6, 10, 14, 18] ''float32''" "demo_tensor [0, 2, 2, 0] ''float32''"]
    by (simp add: demo_dataset_def demo_kinds flip_name normalize_name transform_calls_def
          demo_env_def demo_tensor_def to_device_def to_float_def)
  from c1 [THEN conjunct2, THEN conjunct2] demo_ok ts obtain ri rm w' where
    g: "getitem demo_env ?D 0 [] = (Inr (ri, rm), w')" by auto
  with c1 [THEN conjunct2, THEN conjunct1] ts
  have "result_names ri = [Inr ''flip'', Inr ''normalize'']"
       "result_names rm = [Inr ''flip'', Inr ''normalize'']"
    by (simp_all add: flip_name normalize_name)
  moreover have "transform_ok demo_env demo_flip" "transform_ok demo_env demo_normalize"
    using demo_ok by simp_all
  ultimately show ?thesis using g a demo_load_c1 by blast
qed

text \<open>
  C2. When the image of a case fails to load and its mask loads, \<open>__getitem__\<close> returns no
  image result; the mask results are those of the deterministic transforms in configuration
  order, the entry at position \<open>j\<close> being the name of the \<open>j\<close>-th deterministic transform
  paired with what that transform returned when called on the mask; and the only applications
  made are those transforms on the mask (none on an image, none of a randomizable transform).
  When the deterministic transforms do not raise, \<open>__getitem__\<close> does return.
\<close>

theorem C2_absent_image_mask_branch_proceeds:
  assumes loaded: "load_case env ds idx w = (Inr (None, Some m), w1)"
  shows "(\<forall>ri rm w'. getitem env ds idx w = (Inr (ri, rm), w') \<longrightarrow>
            ri = []
            \<and> result_names rm = map transform_name (filter (\<lambda>t. \<not> randomizable t) (transformations ds))
            \<and> w' = w1 @ map (\<lambda>t. EvCall t (to_float (to_device (ds_device ds) m)))
                          (filter (\<lambda>t. \<not> randomizable t) (transformations ds))
            \<and> length rm = length (filter (\<lambda>t. \<not> randomizable t) (transformations ds))
            \<and> (\<forall>j < length (filter (\<lambda>t. \<not> randomizable t) (transformations ds)).
                  \<exists>n y. transform_name (filter (\<lambda>t. \<not> randomizable t) (transformations ds) ! j) = Inr n
                    \<and> call_tensor env
                         (w1 @ map (\<lambda>t. EvCall t (to_float (to_device (ds_device ds) m)))
                                 (take j (filter (\<lambda>t. \<not> randomizable t) (transformations ds))))
                         (filter (\<lambda>t. \<not> randomizable t) (transformations ds) ! j)
                         (to_float (to_device (ds_device ds) m)) = Inr y
                    \<and> rm ! j = (n, y)))
         \<and> ((\<forall>t \<in> set (transformations ds). \<not> randomizable t \<longrightarrow> transform_ok env t) \<longrightarrow>
               (\<exists>rm w'. getitem env ds idx w = (Inr ([], rm), w')))"
proof (intro conjI allI impI)
  fix ri rm w'
  assume "getitem env ds idx w = (Inr (ri, rm), w')"
  then have lp: "transform_loop env (ds_device ds) None (Some m) (transformations ds) ([], []) w1
               = (Inr (ri, rm), w')"
    by (simp add: getitem_loaded [OF loaded])
  from loop_mask_Inr [OF lp]
  show "ri = []"
    and "result_names rm = map transform_name (filter (\<lambda>t. \<not> randomizable t) (transformations ds))"
    and "w' = w1 @ map (\<lambda>t. EvCall t (to_float (to_device (ds_device ds) m)))
                     (filter (\<lambda>t. \<not> randomizable t) (transformations ds))"
    by (auto simp: calls_mask_only)
  from loop_mask_values [OF lp]
  show "length rm = length (filter (\<lambda>t. \<not> randomizable t) (transformations ds))"
    by auto
  fix j
  assume "j < length (filter (\<lambda>t. \<not> randomizable t) (transformations ds))"
  with loop_mask_values [OF lp]
  show "\<exists>n y. transform_name (filter (\<lambda>t. \<not> randomizable t) (transformations ds) ! j) = Inr n
          \<and> call_tensor env
               (w1 @ map (\<lambda>t. EvCall t (to_float (to_device (ds_device ds) m)))
                       (take j (filter (\<lambda>t. \<not> randomizable t) (transformations ds))))
               (filter (\<lambda>t. \<not> randomizable t) (transformations ds) ! j)
               (to_float (to_device (ds_device ds) m)) = Inr y
          \<and> rm ! j = (n, y)"
    by auto
next
  assume "\<forall>t \<in> set (transformations ds). \<not> randomizable t \<longrightarrow> transform_ok env t"
  from loop_mask_returns [OF this] obtain r w' where
    r: "transform_loop env (ds_device ds) None (Some m) (transformations ds) ([], []) w1 = (Inr r, w')"
    by blast
  then have "fst r = []" using loop_mask_Inr [of env "ds_device ds" m "transformations ds" "[]" "[]" w1 "fst r" "snd r" w']
    by simp
  with r have "getitem env ds idx w = (Inr ([], snd r), w')"
    by (cases r) (simp add: getitem_loaded [OF loaded])
  then show "\<exists>rm w'. getitem env ds idx w = (Inr ([], rm), w')" by blast
qed

theorem C2_absent_image_mask_branch_proceeds_witness:
  "load_case demo_env (demo_dataset [Some ''c4/img.nrrd''] (Some [Some ''c4/mask.nrrd''])) 0 []
     = (Inr (None, Some (demo_tensor [0, 0, 1, 1] ''int16'')),
        [EvReadImage ''c4/img.nrrd'', EvReadImage ''c4/mask.nrrd''])
   \<and> call_tensor demo_env [EvReadImage ''c4/img.nrrd'', EvReadImage ''c4/mask.nrrd''] demo_normalize
         (demo_tensor [0, 0, 1, 1] ''float32'') = Inr (demo_tensor [0, 0, 2, 2] ''float32'')
   \<and> (\<exists>rm w'.
         getitem demo_env (demo_dataset [Some ''c4/img.nrrd''] (Some [Some ''c4/mask.nrrd''])) 0 []
           = (Inr ([], rm), w')
         \<and> result_names rm = [Inr ''normalize'']
         \<and> rm = [(''normalize'', demo_tensor [0, 0, 2, 2] ''float32'')]
         \<and> w' = [EvReadImage ''c4/img.nrrd'', EvReadImage ''c4/mask.nrrd'',
                  EvCall demo_normalize (demo_tensor [0, 0, 1, 1] ''float32'')])"
proof -
  let ?D = "demo_dataset [Some ''c4/img.nrrd''] (Some [Some ''c4/mask.nrrd''])"
  note c2 = C2_absent_image_mask_branch_proceeds [OF demo_load_c4]
  have ts: "transformations ?D = [demo_flip, demo_normalize]" "ds_device ?D = ''cpu''"
    by (simp_all add: demo_dataset_def)
  have ds: "filter (\<lambda>t. \<not> randomizable t) (transformations ?D) = [demo_normalize]"
    by (simp add: ts demo_kinds)
  have ct: "call_tensor demo_env [EvReadImage ''c4/img.nrrd'', EvReadImage ''c4/mask.nrrd''] demo_normalize
         (demo_tensor [0, 0, 1, 1] ''float32'') = Inr (demo_tensor [0, 0, 2, 2] ''float32'')"
    by (simp add: demo_env_def demo_tensor_def)
  from c2 [THEN conjunct2] demo_ok ts obtain rm w' where
    g: "getitem demo_env ?D 0 [] = (Inr ([], rm), w')" by auto
  note f = c2 [THEN conjunct1, rule_format, OF g]
  from f ts
  have n: "result_names rm = [Inr ''normalize'']"
    and tr: "w' = [EvReadImage ''c4/img.nrrd'', EvReadImage ''c4/mask.nrrd'',
              EvCall demo_normalize (demo_tensor [0, 0, 1, 1] ''float32'')]"
    by (simp_all add: demo_kinds normalize_name demo_tensor_def to_device_def to_float_def)
  have len: "length rm = 1"
    using f [THEN conjunct2, THEN conjunct2, THEN conjunct2, THEN conjunct1] by (simp add: ds)
  have "\<exists>n y. transform_name demo_normalize = Inr n
          \<and> call_tensor demo_env [EvReadImage ''c4/img.nrrd'', EvReadImage ''c4/mask.nrrd''] demo_normalize
               (demo_tensor [0, 0, 1, 1] ''float32'') = Inr y
          \<and> rm ! 0 = (n, y)"
    using f [THEN conjunct2, THEN conjunct2, THEN conjunct2, THEN conjunct2, rule_format, of 0]
    by (simp add: ds ts(2) demo_tensor_def to_device_def to_float_def)
  then have "rm ! 0 = (''normalize'', demo_tensor [0, 0, 2, 2] ''float32'')"
    by (auto simp: normalize_name ct)
  with len have v: "rm = [(''normalize'', demo_tensor [0, 0, 2, 2] ''float32'')]"
    by (cases rm) auto
  from g n v tr demo_load_c4 ct show ?thesis by blast
qed

text \<open>
  C3. When image and mask both load and \<open>__getitem__\<close> returns, both result lists have one
  entry per configured transform, and for a randomizable transform at position \<open>k\<close> the
  entries at position \<open>k\<close> of the two lists carry the same name and are the two values of a
  single dictionary call over \<open>{"img", "mask"}\<close>, which is the only application of that
  transform.
\<close>

theorem C3_randomizable_joint_application:
  assumes loaded: "load_case env ds idx w = (Inr (Some i, Some m), w1)"
      and ret: "getitem env ds idx w = (Inr (ri, rm), w')"
      and k: "k < length (transformations ds)"
      and rand: "randomizable (transformations ds ! k)"
  shows "length ri = length (transformations ds) \<and> length rm = length (transformations ds)
         \<and> (\<exists>n out.
               transform_name (transformations ds ! k) = Inr n
               \<and> call_dict env
                    (w1 @ concat (map (transform_calls (ds_device ds) (Some i) (Some m))
                                   (take k (transformations ds))))
                    (transformations ds ! k)
                    [(''img'', to_device (ds_device ds) i), (''mask'', to_device (ds_device ds) m)]
                   = Inr out
               \<and> map snd out = [snd (ri ! k), snd (rm ! k)]
               \<and> fst (ri ! k) = n \<and> fst (rm ! k) = n)
         \<and> transform_calls (ds_device ds) (Some i) (Some m) (transformations ds ! k)
             = [EvCallDict (transformations ds ! k)
                  [(''img'', to_device (ds_device ds) i), (''mask'', to_device (ds_device ds) m)]]
         \<and> w' = w1 @ concat (map (transform_calls (ds_device ds) (Some i) (Some m)) (transformations ds))"
proof -
  let ?ts = "transformations ds"
  let ?dev = "ds_device ds"
  let ?t = "?ts ! k"
  let ?d = "[(''img'', to_device ?dev i), (''mask'', to_device ?dev m)]"
  have whole: "transform_loop env ?dev (Some i) (Some m) ?ts ([], []) w1 = (Inr (ri, rm), w')"
    using ret by (simp add: getitem_loaded [OF loaded])
  from loop_both_Inr [OF whole] have
    names: "result_names ri = map transform_name ?ts" "result_names rm = map transform_name ?ts"
    and trace: "w' = w1 @ concat (map (transform_calls ?dev (Some i) (Some m)) ?ts)"
    by auto
  have len: "length ri = length ?ts" "length rm = length ?ts"
    using names by (auto dest: result_names_length)
  have split: "?ts = take k ?ts @ ?t # drop (Suc k) ?ts"
    using k by (simp add: id_take_nth_drop)
  have "transform_loop env ?dev (Some i) (Some m) (take k ?ts @ ?t # drop (Suc k) ?ts) ([], []) w1
          = (Inr (ri, rm), w')"
    using whole split by simp
  then obtain pi pm wk si sm ws where
    pre: "transform_loop env ?dev (Some i) (Some m) (take k ?ts) ([], []) w1 = (Inr (pi, pm), wk)" and
    step: "transform_step env ?dev (Some i) (Some m) ?t (pi, pm) wk = (Inr (si, sm), ws)" and
    post: "transform_loop env ?dev (Some i) (Some m) (drop (Suc k) ?ts) (si, sm) ws = (Inr (ri, rm), w')"
    by (auto simp: transform_loop_append bind_io_eq_Inr)
  from loop_both_Inr [OF pre] have
    pn: "result_names pi = map transform_name (take k ?ts)"
        "result_names pm = map transform_name (take k ?ts)"
    and wk: "wk = w1 @ concat (map (transform_calls ?dev (Some i) (Some m)) (take k ?ts))"
    by auto
  have plen: "length pi = k" "length pm = k"
    using pn k by (auto dest: result_names_length)
  from step rand obtain n out a b where
    s: "transform_name ?t = Inr n" "call_dict env wk ?t ?d = Inr out" "map snd out = [a, b]"
       "si = pi @ [(n, a)]" "sm = pm @ [(n, b)]"
    by (auto simp: step_both_rand apply_dict_both_Inr)
  from loop_both_Inr [OF post] obtain xi xm where x: "ri = si @ xi" "rm = sm @ xm"
    by blast
  have rik: "ri ! k = (n, a)" using x s plen by (simp add: nth_append)
  have rmk: "rm ! k = (n, b)" using x s plen by (simp add: nth_append)
  have calls: "transform_calls ?dev (Some i) (Some m) ?t = [EvCallDict ?t ?d]"
    using rand by (simp add: transform_calls_def)
  show ?thesis
    using len s wk rik rmk calls trace by simp
qed

theorem C3_randomizable_joint_application_witness:
  "load_case demo_env (demo_dataset [Some ''c1/img.nrrd''] (Some [Some ''c1/mask.nrrd''])) 0 []
     = (Inr (Some (demo_tensor [3, 5, 7, 9] ''int16''), Some (demo_tensor [0, 1, 1, 0] ''int16'')),
        [EvReadImage ''c1/img.nrrd'', EvReadImage ''c1/mask.nrrd''])
   \<and> (0::nat) < length (transformations (demo_dataset [Some ''c1/img.nrrd''] (Some [Some ''c1/mask.nrrd''])))
   \<and> randomizable (transformations (demo_dataset [Some ''c1/img.nrrd''] (Some [Some ''c1/mask.nrrd''])) ! 0)
   \<and> (\<exists>out. call_dict demo_env [EvReadImage ''c1/img.nrrd'', EvReadImage ''c1/mask.nrrd''] demo_flip
                [(''img'', demo_tensor [3, 5, 7, 9] ''int16''), (''mask'', demo_tensor [0, 1, 1, 0] ''int16'')]
               = Inr out
             \<and> map snd out = [demo_tensor [9, 7, 5, 3] ''int16'', demo_tensor [0, 1, 1, 0] ''int16''])"
proof -
  let ?D = "demo_dataset [Some ''c1/img.nrrd''] (Some [Some ''c1/mask.nrrd''])"
  have ts: "transformations ?D = [demo_flip, demo_normalize]" "ds_device ?D = ''cpu''"
    by (simp_all add: demo_dataset_def)
  have k: "(0::nat) < length (transformations ?D)" and r: "randomizable (transformations ?D ! 0)"
    by (simp_all add: ts demo_kinds)
  from C3_randomizable_joint_application [OF demo_load_c1 demo_getitem_c1 k r]
  have "\<exists>out. call_dict demo_env [EvReadImage ''c1/img.nrrd'', EvReadImage ''c1/mask.nrrd''] demo_flip
                [(''img'', demo_tensor [3, 5, 7, 9] ''int16''), (''mask'', demo_tensor [0, 1, 1, 0] ''int16'')]
               = Inr out
             \<and> map snd out = [demo_tensor [9, 7, 5, 3] ''int16'', demo_tensor [0, 1, 1, 0] ''int16'']"
    by (auto simp: ts to_device_def demo_tensor_def)
  with demo_load_c1 k r show ?thesis by blast
qed

text \<open>
  C4. For a case without a mask (no mask-path list, an empty one, a \<open>None\<close> or empty entry,
  or an entry whose load fails), whatever \<open>__getitem__\<close> returns has an empty list of mask
  results, for every transform list; and when the index is in range and no transform raises,
  \<open>__getitem__\<close> does return.
\<close>

theorem C4_no_mask_no_mask_results:
  assumes absent:
    "maskPaths ds = None
     \<or> maskPaths ds = Some []
     \<or> (\<exists>mps. maskPaths ds = Some mps
           \<and> (py_index mps idx = Inr None \<or> py_index mps idx = Inr (Some [])))
     \<or> (\<exists>mps s. maskPaths ds = Some mps \<and> py_index mps idx = Inr (Some s)
           \<and> (\<forall>w0. fst (load env (Some s) w0) = Inr None))"
  shows "(\<forall>ri rm w'. getitem env ds idx w = (Inr (ri, rm), w') \<longrightarrow> rm = [])
         \<and> (idx < length (imgPaths ds) \<and> (\<forall>t \<in> set (transformations ds). transform_ok env t) \<longrightarrow>
               (\<exists>ri w'. getitem env ds idx w = (Inr (ri, []), w')))"
proof -
  have cause: "maskPaths ds = None \<or> maskPaths ds = Some []
           \<or> (\<exists>mps mpath. maskPaths ds = Some mps \<and> py_index mps idx = Inr mpath
                 \<and> (\<forall>w0. fst (load env mpath w0) = Inr None))"
    using absent load_falsy_path by metis
  have no_results: "rm = []" if "getitem env ds idx w = (Inr (ri, rm), w')" for ri rm w'
  proof -
    from that obtain img msk w1 where
      lc: "load_case env ds idx w = (Inr (img, msk), w1)" and
      lp: "transform_loop env (ds_device ds) img msk (transformations ds) ([], []) w1 = (Inr (ri, rm), w')"
      by (auto simp: getitem_Inr)
    have msk: "msk = None" using load_case_mask_None [OF cause lc] .
    show ?thesis
    proof (cases img)
      case None
      with lp msk show ?thesis by (simp add: loop_none)
    next
      case (Some i)
      with lp msk loop_img_Inr [of env "ds_device ds" i "transformations ds" "[]" w1 ri rm w']
      show ?thesis by simp
    qed
  qed
  have returns: "\<exists>ri w'. getitem env ds idx w = (Inr (ri, []), w')"
    if idx: "idx < length (imgPaths ds)" and ok: "\<forall>t \<in> set (transformations ds). transform_ok env t"
  proof -
    have "\<And>mps. maskPaths ds = Some mps \<Longrightarrow> mps \<noteq> [] \<Longrightarrow> idx < length mps"
      using absent by (auto simp: py_index_def split: if_splits)
    from load_case_returns [OF idx this] obtain img msk w1 where
      lc: "load_case env ds idx w = (Inr (img, msk), w1)" by blast
    from loop_returns [OF ok] obtain r w' where
      "transform_loop env (ds_device ds) img msk (transformations ds) ([], []) w1 = (Inr r, w')"
      by blast
    with lc have g: "getitem env ds idx w = (Inr (fst r, snd r), w')"
      by (simp add: getitem_loaded)
    with no_results have "snd r = []" by blast
    with g show ?thesis by auto
  qed
  from no_results returns show ?thesis by blast
qed

theorem C4_no_mask_no_mask_results_witness:
  "maskPaths (demo_dataset [Some ''c5/img.nrrd''] (Some [None])) = Some [None]
   \<and> py_index [None :: path] 0 = Inr None
   \<and> (0::nat) < length (imgPaths (demo_dataset [Some ''c5/img.nrrd''] (Some [None])))
   \<and> transformations (demo_dataset [Some ''c5/img.nrrd''] (Some [None])) = [demo_flip, demo_normalize]
   \<and> transform_ok demo_env demo_flip \<and> transform_ok demo_env demo_normalize
   \<and> (\<exists>ri w'. getitem demo_env (demo_dataset [Some ''c5/img.nrrd''] (Some [None])) 0 []
                  = (Inr (ri, []), w'))"
proof -
  let ?D = "demo_dataset [Some ''c5/img.nrrd''] (Some [None])"
  have mp: "maskPaths ?D = Some [None]" and ix: "py_index [None :: path] 0 = Inr None"
    and len: "(0::nat) < length (imgPaths ?D)"
    and ok: "\<forall>t \<in> set (transformations ?D). transform_ok demo_env t"
    using demo_ok by (simp_all add: demo_dataset_def py_index_def)
  have "maskPaths ?D = None \<or> maskPaths ?D = Some []
     \<or> (\<exists>mps. maskPaths ?D = Some mps
           \<and> (py_index mps 0 = Inr None \<or> py_index mps 0 = Inr (Some [])))
     \<or> (\<exists>mps s. maskPaths ?D = Some mps \<and> py_index mps 0 = Inr (Some s)
           \<and> (\<forall>w0. fst (load demo_env (Some s) w0) = Inr None))"
    using mp ix by simp
  from C4_no_mask_no_mask_results [OF this, of "[]", THEN conjunct2] len ok
  have "\<exists>ri w'. getitem demo_env ?D 0 [] = (Inr (ri, []), w')" by blast
  moreover have "transformations ?D = [demo_flip, demo_normalize]" by (simp add: demo_dataset_def)
  moreover have "transform_ok demo_env demo_flip" "transform_ok demo_env demo_normalize"
    using demo_ok by simp_all
  ultimately show ?thesis using mp ix len by blast
qed

text \<open>
  C5. \<open>load\<close> never raises, for any path and any history; for \<open>None\<close> and for the empty
  string it returns \<open>None\<close> and makes no outside call (the world is unchanged); when reading
  the file or converting it to a tensor fails, it returns \<open>None\<close>.
\<close>

theorem C5_load_absent_never_raises:
  "(\<exists>v. fst (load env p w) = Inr v)
   \<and> load env None w = (Inr None, w)
   \<and> load env (Some []) w = (Inr None, w)
   \<and> (\<forall>s e. s \<noteq> [] \<and> sitk_ReadImage env w s = Inl e \<longrightarrow>
         load env (Some s) w = (Inr None, w @ [EvReadImage s]))
   \<and> (\<forall>s i e. s \<noteq> [] \<and> sitk_ReadImage env w s = Inr i \<and> torch_tensor env i = Inl e \<longrightarrow>
         load env (Some s) w = (Inr None, w @ [EvReadImage s]))"
  by (simp add: load_never_raises)
     (auto simp: load_def load_body_def catch_io_def return_io_def bind_io_def call_def lift_io_def)

theorem C5_load_absent_never_raises_witness:
  "''missing.nrrd'' \<noteq> [] \<and> sitk_ReadImage demo_env [] ''missing.nrrd'' = Inl (OtherError ''cannot read'')
   \<and> load demo_env (Some ''missing.nrrd'') [] = (Inr None, [EvReadImage ''missing.nrrd''])
   \<and> ''c4/img.nrrd'' \<noteq> [] \<and> sitk_ReadImage demo_env [] ''c4/img.nrrd'' = Inl (OtherError ''cannot read'')
   \<and> ''t.nrrd'' \<noteq> []
   \<and> sitk_ReadImage (demo_env\<lparr>torch_tensor := (\<lambda>i. Inl TypeError)\<rparr>) [] ''c1/img.nrrd'' = Inr (Image 10)
   \<and> load (demo_env\<lparr>torch_tensor := (\<lambda>i. Inl TypeError)\<rparr>) (Some ''c1/img.nrrd'') []
       = (Inr None, [EvReadImage ''c1/img.nrrd''])"
  using C5_load_absent_never_raises [of demo_env "Some ''missing.nrrd''" "[]"]
        C5_load_absent_never_raises [of "demo_env\<lparr>torch_tensor := (\<lambda>i. Inl TypeError)\<rparr>" "Some ''c1/img.nrrd''" "[]"]
  by (simp add: demo_env_def demo_files_def)



text \<open>
  C7. \<open>preview\<close> builds the dataset over the first image path and the first mask path only
  (\<open>imgs[:1]\<close>, \<open>masks[:1]\<close>) and sets the progress bar maximum to the length of that dataset;
  for a non-empty list of collected cases the dataset holds exactly the first case, its length
  and the progress bar maximum are 1, and \<open>preview\<close> handles index 0 alone.
\<close>

theorem C7_preview_first_case_only:
  assumes ready: "preview_setup env inp ip mp ts dev w = (Inr (imgs, masks, ds), w0)"
  shows "collectImagesAndMasksList env (w @ [EvLoggingInfo Started]) inp ip mp = Inr (imgs, masks)
         \<and> imgPaths ds = take 1 imgs \<and> maskPaths ds = Some (take 1 masks)
         \<and> dataset_len ds = min 1 (length imgs)
         \<and> w0 = w @ [EvLoggingInfo Started, EvCollect inp ip mp, EvValidate imgs masks, EvClearScene,
                      EvSetMaximum (dataset_len ds)]
         \<and> (imgs \<noteq> [] \<longrightarrow>
               imgPaths ds = [hd imgs] \<and> dataset_len ds = 1 \<and> last w0 = EvSetMaximum 1
               \<and> preview env inp ip mp ts fs dev w
                   = bind_io (preview_loop env ds imgs masks fs [0]) (\<lambda>_. report_completed) w0)"
proof -
  from ready have
    c: "collectImagesAndMasksList env (w @ [EvLoggingInfo Started]) inp ip mp = Inr (imgs, masks)" and
    d: "preview_dataset env imgs masks ts dev = Inr ds" and
    w0: "w0 = w @ [EvLoggingInfo Started, EvCollect inp ip mp, EvValidate imgs masks, EvClearScene,
                   EvSetMaximum (dataset_len ds)]"
    by (simp_all add: preview_setup_Inr)
  from d have paths: "imgPaths ds = take 1 imgs" "maskPaths ds = Some (take 1 masks)"
    by (auto simp: preview_dataset_def dataset_init_def split: if_splits sum.splits)
  have len: "dataset_len ds = min 1 (length imgs)"
    using paths by (simp add: dataset_len_def min.commute)
  have first: "imgPaths ds = [hd imgs] \<and> dataset_len ds = 1 \<and> last w0 = EvSetMaximum 1
               \<and> preview env inp ip mp ts fs dev w
                   = bind_io (preview_loop env ds imgs masks fs [0]) (\<lambda>_. report_completed) w0"
    if nonempty: "imgs \<noteq> []"
  proof -
    from nonempty have t: "take 1 imgs = [hd imgs]" by (cases imgs) simp_all
    have one: "dataset_len ds = 1" using paths t by (simp add: dataset_len_def)
    have "preview env inp ip mp ts fs dev w
            = bind_io (preview_loop env ds imgs masks fs [0]) (\<lambda>_. report_completed) w0"
      using ready one by (simp add: preview_def bind_io_Inr)
    with paths t one w0 show ?thesis by simp
  qed
  show ?thesis
  proof (intro conjI impI)
    show "collectImagesAndMasksList env (w @ [EvLoggingInfo Started]) inp ip mp = Inr (imgs, masks)"
      by (rule c)
    show "imgPaths ds = take 1 imgs" by (rule paths(1))
    show "maskPaths ds = Some (take 1 masks)" by (rule paths(2))
    show "dataset_len ds = min 1 (length imgs)" by (rule len)
    show "w0 = w @ [EvLoggingInfo Started, EvCollect inp ip mp, EvValidate imgs masks, EvClearScene,
                    EvSetMaximum (dataset_len ds)]" by (rule w0)
  next
    assume ne: "imgs \<noteq> []"
    from first [OF ne] show "imgPaths ds = [hd imgs]" by (rule conjunct1)
    from first [OF ne] show "dataset_len ds = 1" by simp
    from first [OF ne] show "last w0 = EvSetMaximum 1" by simp
    from first [OF ne] show "preview env inp ip mp ts fs dev w
            = bind_io (preview_loop env ds imgs masks fs [0]) (\<lambda>_. report_completed) w0"
      by simp
  qed
qed

theorem C7_preview_first_case_only_witness:
  "preview_setup demo_env ''five'' ''img.nrrd'' ''mask'' [demo_flip, demo_normalize] ''CPU'' []
   = (Inr ([Some ''c1/img.nrrd'', Some ''c2/img.nrrd'', Some ''c3/img.nrrd'', Some ''c4/img.nrrd'',
            Some ''c5/img.nrrd''],
           [Some ''c1/mask.nrrd'', Some ''c2/mask.nrrd'', Some ''c3/mask.nrrd'', Some ''c4/mask.nrrd'',
            None],
           demo_dataset [Some ''c1/img.nrrd''] (Some [Some ''c1/mask.nrrd''])),
      [EvLoggingInfo Started, EvCollect ''five'' ''img.nrrd'' ''mask'',
       EvValidate
         [Some ''c1/img.nrrd'', Some ''c2/img.nrrd'', Some ''c3/img.nrrd'', Some ''c4/img.nrrd'',
          Some ''c5/img.nrrd'']
         [Some ''c1/mask.nrrd'', Some ''c2/mask.nrrd'', Some ''c3/mask.nrrd'', Some ''c4/mask.nrrd'',
          None],
       EvClearScene, EvSetMaximum 1])
   \<and> length [Some ''c1/img.nrrd'', Some ''c2/img.nrrd'', Some ''c3/img.nrrd'', Some ''c4/img.nrrd'',
              Some ''c5/img.nrrd''] = 5
   \<and> imgPaths (demo_dataset [Some ''c1/img.nrrd''] (Some [Some ''c1/mask.nrrd'']))
       = [Some ''c1/img.nrrd'']
   \<and> dataset_len (demo_dataset [Some ''c1/img.nrrd''] (Some [Some ''c1/mask.nrrd''])) = 1"
proof -
  have ne: "[Some ''c1/img.nrrd'', Some ''c2/img.nrrd'', Some ''c3/img.nrrd'', Some ''c4/img.nrrd'',
             Some ''c5/img.nrrd''] \<noteq> []" by simp
  note c7 = C7_preview_first_case_only [OF demo_preview_setup_five, of "''flat''",
              THEN conjunct2, THEN conjunct2, THEN conjunct2, THEN conjunct2, THEN conjunct2,
              rule_format, OF ne]
  have "imgPaths (demo_dataset [Some ''c1/img.nrrd''] (Some [Some ''c1/mask.nrrd'']))
          = [Some ''c1/img.nrrd'']"
    using c7 [THEN conjunct1] by simp
  moreover have "dataset_len (demo_dataset [Some ''c1/img.nrrd''] (Some [Some ''c1/mask.nrrd''])) = 1"
    using c7 [THEN conjunct2, THEN conjunct1] .
  ultimately have "imgPaths (demo_dataset [Some ''c1/img.nrrd''] (Some [Some ''c1/mask.nrrd'']))
          = [Some ''c1/img.nrrd'']"
       "dataset_len (demo_dataset [Some ''c1/img.nrrd''] (Some [Some ''c1/mask.nrrd''])) = 1"
    by blast+
  with demo_preview_setup_five show ?thesis by simp
qed

text \<open>
  C8. In one case of \<open>process\<close>, whatever the outcome, every mask tensor handed to \<open>save\<close>
  has a non-zero element. With \<open>(transformedImages, transformedMasks)\<close> the result of
  \<open>dataset[dirIdx]\<close>, the masks saved are, in order, a prefix of the mask results at the
  positions \<open>i\<close> of \<open>transformedImages\<close> where a mask result exists and has a non-zero
  element; when the case completes they are exactly those.
\<close>

theorem C8_mask_persisted_iff_nontrivial:
  assumes run: "process_case env ds imgs masks out ip mp fs dirIdx w = (r, w')"
  shows "(\<exists>ms. saved_masks w' = saved_masks w @ ms \<and> (\<forall>t \<in> set ms. tensor_any t))
         \<and> (\<forall>tis tms w2. getitem env ds dirIdx w = (Inr (tis, tms), w2) \<longrightarrow>
               (\<exists>ms. saved_masks w' = saved_masks w @ ms
                  \<and> prefix ms
                       (map (\<lambda>i. detach_cpu (snd (tms ! i)))
                          (filter (\<lambda>i. i < length tms \<and> tensor_any (snd (tms ! i)))
                             [0..<length tis])))
               \<and> (r = Inr () \<longrightarrow>
                     saved_masks w' = saved_masks w @
                       map (\<lambda>i. detach_cpu (snd (tms ! i)))
                         (filter (\<lambda>i. i < length tms \<and> tensor_any (snd (tms ! i)))
                            [0..<length tis])))"
proof -
  obtain rg w2 where g: "getitem env ds dirIdx w = (rg, w2)" by (cases "getitem env ds dirIdx w")
  from emits_onlyD [OF emits_getitem g] have s2: "saved_masks w2 = saved_masks w"
    by (auto simp: saved_masks_no_output)
  have with_results:
    "(\<exists>ms. saved_masks w' = saved_masks w @ ms \<and> prefix ms (masks_written tis tms))
     \<and> (r = Inr () \<longrightarrow> saved_masks w' = saved_masks w @ masks_written tis tms)"
    if "rg = Inr (tis, tms)" for tis tms
  proof -
    from that g run have "process_outputs env imgs masks out ip mp fs dirIdx (tis, tms) w2 = (r, w')"
      by (simp add: process_case_def bind_io_def)
    from process_outputs_masks [OF this] s2 show ?thesis by simp
  qed
  have first: "\<exists>ms. saved_masks w' = saved_masks w @ ms \<and> (\<forall>t \<in> set ms. tensor_any t)"
  proof (cases rg)
    case (Inl e)
    with g run have "w' = w2" by (simp add: process_case_def bind_io_def)
    with s2 show ?thesis by simp
  next
    case (Inr packs)
    obtain tis tms where "packs = (tis, tms)" by (cases packs)
    with Inr with_results [of tis tms] obtain ms where
      ms: "saved_masks w' = saved_masks w @ ms" "prefix ms (masks_written tis tms)" by blast
    then have "set ms \<subseteq> set (masks_written tis tms)" by (auto simp: prefix_def)
    with masks_written_any [of tis tms] have "\<forall>t \<in> set ms. tensor_any t" by blast
    with ms show ?thesis by blast
  qed
  have second: "(\<exists>ms. saved_masks w' = saved_masks w @ ms
                  \<and> prefix ms
                       (map (\<lambda>i. detach_cpu (snd (tms ! i)))
                          (filter (\<lambda>i. i < length tms \<and> tensor_any (snd (tms ! i)))
                             [0..<length tis])))
               \<and> (r = Inr () \<longrightarrow>
                     saved_masks w' = saved_masks w @
                       map (\<lambda>i. detach_cpu (snd (tms ! i)))
                         (filter (\<lambda>i. i < length tms \<and> tensor_any (snd (tms ! i)))
                            [0..<length tis]))"
    if "getitem env ds dirIdx w = (Inr (tis, tms), w2')" for tis tms w2'
    using with_results [of tis tms] that g by (simp add: masks_written_positions)
  from first second show ?thesis by blast
qed

theorem C8_mask_persisted_iff_nontrivial_witness:
  "(\<exists>w'. process_case demo_env
       (demo_dataset [Some ''c1/img.nrrd'', Some ''c2/img.nrrd'']
          (Some [Some ''c1/mask.nrrd'', Some ''c2/mask.nrrd'']))
       [Some ''c1/img.nrrd'', Some ''c2/img.nrrd''] [Some ''c1/mask.nrrd'', Some ''c2/mask.nrrd'']
       ''out'' ''img.nrrd'' ''mask'' ''flat'' 0 [] = (Inr (), w')
      \<and> saved_masks w' = [demo_tensor [0, 1, 1, 0] ''int16'', demo_tensor [0, 2, 2, 0] ''float32''])
   \<and> (\<exists>w'. process_case demo_env
       (demo_dataset [Some ''c1/img.nrrd'', Some ''c2/img.nrrd'']
          (Some [Some ''c1/mask.nrrd'', Some ''c2/mask.nrrd'']))
       [Some ''c1/img.nrrd'', Some ''c2/img.nrrd''] [Some ''c1/mask.nrrd'', Some ''c2/mask.nrrd'']
       ''out'' ''img.nrrd'' ''mask'' ''flat'' 1 [] = (Inr (), w')
      \<and> saved_masks w' = [])"
proof -
  let ?D = "demo_dataset [Some ''c1/img.nrrd'', Some ''c2/img.nrrd'']
              (Some [Some ''c1/mask.nrrd'', Some ''c2/mask.nrrd''])"
  let ?imgs = "[Some ''c1/img.nrrd'', Some ''c2/img.nrrd'']"
  let ?masks = "[Some ''c1/mask.nrrd'', Some ''c2/mask.nrrd'']"
  obtain w0 where r0:
    "process_case demo_env ?D ?imgs ?masks ''out'' ''img.nrrd'' ''mask'' ''flat'' 0 [] = (Inr (), w0)"
    using demo_case_pairs0 by blast
  obtain w1 where r1:
    "process_case demo_env ?D ?imgs ?masks ''out'' ''img.nrrd'' ''mask'' ''flat'' 1 [] = (Inr (), w1)"
    using demo_case_pairs1 by blast
  from C8_mask_persisted_iff_nontrivial [OF r0, THEN conjunct2, rule_format, OF demo_getitem_pairs0]
  have s0: "saved_masks w0 = [demo_tensor [0, 1, 1, 0] ''int16'', demo_tensor [0, 2, 2, 0] ''float32'']"
    by (simp add: tensor_any_def demo_tensor_def detach_cpu_def)
  from C8_mask_persisted_iff_nontrivial [OF r1, THEN conjunct2, rule_format, OF demo_getitem_pairs1]
  have s1: "saved_masks w1 = []"
    by (simp add: tensor_any_def demo_tensor_def detach_cpu_def)
  from r0 s0 r1 s1 show ?thesis by blast
qed

text \<open>
  C9. The name attached to a result is the \<open>"class"\<close> field of the descriptor when
  \<open>get_transform_info\<close> gives one, and \<open>sanitizeTransformName\<close> of the transform when the method
  is missing; in that case naming does not raise, every character of the name is a lower-case
  letter, a digit or an underscore, and the name is non-empty when the class name has such a
  character. \<open>apply_transform\<close> and \<open>apply_dict_transform\<close> attach exactly this name.
\<close>

theorem C9_transform_naming:
  "(\<forall>d c. get_transform_info t = Inr d \<and> map_of d ''class'' = Some c \<longrightarrow>
       transform_name t = Inr c)
   \<and> (get_transform_info t = Inl AttributeError \<longrightarrow>
         transform_name t = Inr (sanitizeTransformName t)
         \<and> (\<forall>c \<in> set (sanitizeTransformName t). path_safe_char c)
         \<and> ((\<exists>c \<in> set (after_last_dot (type_name t)). path_safe_char (lower_char c)) \<longrightarrow>
               sanitizeTransformName t \<noteq> []))
   \<and> (\<forall>env img lst w r w'. apply_transform env t img lst w = (Inr r, w') \<longrightarrow>
         (\<exists>n x. transform_name t = Inr n \<and> r = lst @ [(n, x)]))
   \<and> (\<forall>env d tis tms w ri rm w'.
         apply_dict_transform env t d tis (Some tms) w = (Inr (ri, rm), w') \<longrightarrow>
         (\<exists>n a b. transform_name t = Inr n \<and> ri = tis @ [(n, a)] \<and> rm = tms @ [(n, b)]))
   \<and> (\<forall>env d tis w ri rm w'.
         apply_dict_transform env t d tis None w = (Inr (ri, rm), w') \<longrightarrow>
         (\<exists>n a. transform_name t = Inr n \<and> ri = tis @ [(n, a)] \<and> rm = []))"
proof (intro conjI allI impI)
  fix d c
  assume "get_transform_info t = Inr d \<and> map_of d ''class'' = Some c"
  then show "transform_name t = Inr c" by (simp add: transform_name_def)
next
  assume "get_transform_info t = Inl AttributeError"
  then show "transform_name t = Inr (sanitizeTransformName t)" by (simp add: transform_name_def)
next
  show "\<forall>c \<in> set (sanitizeTransformName t). path_safe_char c" by (rule sanitize_path_safe)
next
  assume "\<exists>c \<in> set (after_last_dot (type_name t)). path_safe_char (lower_char c)"
  then show "sanitizeTransformName t \<noteq> []" by (rule sanitize_nonempty)
next
  fix env img lst w r w'
  assume "apply_transform env t img lst w = (Inr r, w')"
  then show "\<exists>n x. transform_name t = Inr n \<and> r = lst @ [(n, x)]"
    by (auto simp: apply_transform_Inr)
next
  fix env d tis tms w ri rm w'
  assume "apply_dict_transform env t d tis (Some tms) w = (Inr (ri, rm), w')"
  then show "\<exists>n a b. transform_name t = Inr n \<and> ri = tis @ [(n, a)] \<and> rm = tms @ [(n, b)]"
    by (auto simp: apply_dict_both_Inr)
next
  fix env d tis w ri rm w'
  assume "apply_dict_transform env t d tis None w = (Inr (ri, rm), w')"
  then show "\<exists>n a. transform_name t = Inr n \<and> ri = tis @ [(n, a)] \<and> rm = []"
    by (auto simp: apply_dict_img_Inr)
qed

theorem C9_transform_naming_witness:
  "get_transform_info demo_flip = Inr [(''class'', ''flip''), (''id'', ''140'')]
   \<and> map_of [(''class'', ''flip''), (''id'', ''140'')] ''class'' = Some ''flip''
   \<and> transform_name demo_flip = Inr ''flip''
   \<and> get_transform_info demo_normalize = Inl AttributeError
   \<and> (\<exists>c \<in> set (after_last_dot (type_name demo_normalize)). path_safe_char (lower_char c))
   \<and> transform_name demo_normalize = Inr (sanitizeTransformName demo_normalize)
   \<and> sanitizeTransformName demo_normalize = ''normalize''
   \<and> sanitizeTransformName demo_normalize \<noteq> []
   \<and> list_all path_safe_char (sanitizeTransformName demo_normalize)
   \<and> apply_transform demo_env demo_normalize (demo_tensor [1, 2] ''int16'') [] []
       = (Inr [(''normalize'', demo_tensor [2, 4] ''float32'')],
          [EvCall demo_normalize (demo_tensor [1, 2] ''float32'')])"
proof -
  have i1: "get_transform_info demo_flip = Inr [(''class'', ''flip''), (''id'', ''140'')]"
    and i2: "get_transform_info demo_normalize = Inl AttributeError"
    by (simp_all add: demo_flip_def demo_normalize_def)
  have m: "map_of [(''class'', ''flip''), (''id'', ''140'')] ''class'' = Some ''flip''" by simp
  have ex: "\<exists>c \<in> set (after_last_dot (type_name demo_normalize)). path_safe_char (lower_char c)"
    by (simp add: demo_normalize_def lower_char_def path_safe_char_def)
  have s: "sanitizeTransformName demo_normalize = ''normalize''"
    by (simp add: demo_normalize_def sanitizeTransformName_def lower_char_def path_safe_char_def)
  have a: "transform_name demo_flip = Inr ''flip''"
    using C9_transform_naming [of demo_flip, THEN conjunct1, rule_format, OF conjI [OF i1 m]] .
  note c9n = C9_transform_naming [of demo_normalize, THEN conjunct2, THEN conjunct1, rule_format, OF i2]
  have b: "transform_name demo_normalize = Inr (sanitizeTransformName demo_normalize)"
       "sanitizeTransformName demo_normalize \<noteq> []"
       "\<forall>c \<in> set (sanitizeTransformName demo_normalize). path_safe_char c"
    using c9n ex by simp_all
  have run: "apply_transform demo_env demo_normalize (demo_tensor [1, 2] ''int16'') [] []
       = (Inr [(''normalize'', demo_tensor [2, 4] ''float32'')],
          [EvCall demo_normalize (demo_tensor [1, 2] ''float32'')])"
    using b(1) s
    by (simp add: apply_transform_def io_defs demo_env_def demo_tensor_def to_float_def)
  from b(3) have "list_all path_safe_char (sanitizeTransformName demo_normalize)"
    by (simp add: list_all_iff)
  with i1 i2 m ex s a b(1,2) run show ?thesis by simp
qed

text \<open>
  C10. In \<open>process\<close>, for a case whose image fails to load while its mask loads,
  \<open>transformedImages\<close> is empty while \<open>transformedMasks\<close> has one entry per deterministic
  transform, the loop over positions has no iteration, and, whatever the outcome of the case,
  no directory is made and neither an image nor a mask is saved.
\<close>

theorem C10_absent_image_nothing_persisted:
  assumes loaded: "load_case env ds dirIdx w = (Inr (None, Some m), w1)"
      and run: "process_case env ds imgs masks out ip mp fs dirIdx w = (r, w')"
  shows "(\<forall>tis tms w2. getitem env ds dirIdx w = (Inr (tis, tms), w2) \<longrightarrow>
            tis = [] \<and> [0..<length tis] = []
            \<and> length tms = length (filter (\<lambda>t. \<not> randomizable t) (transformations ds))
            \<and> process_case env ds imgs masks out ip mp fs dirIdx w
                = process_outputs env imgs masks out ip mp fs dirIdx ([], tms) w2)
         \<and> (\<exists>evs. w' = w @ evs \<and> (\<forall>ev \<in> set evs. \<not> is_output ev))"
proof -
  have res: "tis = [] \<and> length tms = length (filter (\<lambda>t. \<not> randomizable t) (transformations ds))"
    if "getitem env ds dirIdx w = (Inr (tis, tms), w2)" for tis tms w2
  proof -
    from that have "transform_loop env (ds_device ds) None (Some m) (transformations ds) ([], []) w1
                      = (Inr (tis, tms), w2)"
      by (simp add: getitem_loaded [OF loaded])
    from loop_mask_Inr [OF this] show ?thesis
      by (auto dest: result_names_length)
  qed
  have a: "tis = [] \<and> [0..<length tis] = []
            \<and> length tms = length (filter (\<lambda>t. \<not> randomizable t) (transformations ds))
            \<and> process_case env ds imgs masks out ip mp fs dirIdx w
                = process_outputs env imgs masks out ip mp fs dirIdx ([], tms) w2"
    if g: "getitem env ds dirIdx w = (Inr (tis, tms), w2)" for tis tms w2
    using res [OF g] g by (simp add: process_case_def bind_io_def)
  obtain rg w2 where g: "getitem env ds dirIdx w = (rg, w2)" by (cases "getitem env ds dirIdx w")
  from emits_onlyD [OF emits_getitem g] obtain e1 where
    e1: "w2 = w @ e1" "\<forall>ev \<in> set e1. \<not> is_output ev" by blast
  have b: "\<exists>evs. w' = w @ evs \<and> (\<forall>ev \<in> set evs. \<not> is_output ev)"
  proof (cases rg)
    case (Inl e)
    with g run have "w' = w2" by (simp add: process_case_def bind_io_def)
    with e1 show ?thesis by blast
  next
    case (Inr packs)
    obtain tis tms where p: "packs = (tis, tms)" by (cases packs)
    with Inr g a [of tis tms w2] run
    have "process_outputs env imgs masks out ip mp fs dirIdx ([], tms) w2 = (r, w')" by simp
    from emits_onlyD [OF emits_outputs_empty this] obtain e2 where
      "w' = w2 @ e2" "\<forall>ev \<in> set e2. \<not> is_output ev" by blast
    with e1 have "w' = w @ (e1 @ e2) \<and> (\<forall>ev \<in> set (e1 @ e2). \<not> is_output ev)" by auto
    then show ?thesis by blast
  qed
  from a b show ?thesis by blast
qed

theorem C10_absent_image_nothing_persisted_witness:
  "load_case demo_env (demo_dataset [Some ''c4/img.nrrd''] (Some [Some ''c4/mask.nrrd''])) 0 []
     = (Inr (None, Some (demo_tensor [0, 0, 1, 1] ''int16'')),
        [EvReadImage ''c4/img.nrrd'', EvReadImage ''c4/mask.nrrd''])
   \<and> getitem demo_env (demo_dataset [Some ''c4/img.nrrd''] (Some [Some ''c4/mask.nrrd''])) 0 []
     = (Inr ([], [(''normalize'', demo_tensor [0, 0, 2, 2] ''float32'')]),
        [EvReadImage ''c4/img.nrrd'', EvReadImage ''c4/mask.nrrd'',
         EvCall demo_normalize (demo_tensor [0, 0, 1, 1] ''float32'')])
   \<and> process_case demo_env (demo_dataset [Some ''c4/img.nrrd''] (Some [Some ''c4/mask.nrrd'']))
       [Some ''c4/img.nrrd''] [Some ''c4/mask.nrrd''] ''out'' ''img.nrrd'' ''mask'' ''flat'' 0 []
     = (Inr (),
        [EvReadImage ''c4/img.nrrd'', EvReadImage ''c4/mask.nrrd'',
         EvCall demo_normalize (demo_tensor [0, 0, 1, 1] ''float32''),
         EvGetOriginalCase (Some ''c4/img.nrrd'') ''flat'',
         EvReadImage ''c4/mask.nrrd'', EvSetValue 1])
   \<and> filter is_output
         [EvReadImage ''c4/img.nrrd'', EvReadImage ''c4/mask.nrrd'',
          EvCall demo_normalize (demo_tensor [0, 0, 1, 1] ''float32''),
          EvGetOriginalCase (Some ''c4/img.nrrd'') ''flat'',
          EvReadImage ''c4/mask.nrrd'', EvSetValue 1] = []"
proof -
  from C10_absent_image_nothing_persisted [OF demo_load_c4 demo_case_c4, THEN conjunct2]
  have "\<forall>ev \<in> set [EvReadImage ''c4/img.nrrd'', EvReadImage ''c4/mask.nrrd'',
                    EvCall demo_normalize (demo_tensor [0, 0, 1, 1] ''float32''),
                    EvGetOriginalCase (Some ''c4/img.nrrd'') ''flat'',
                    EvReadImage ''c4/mask.nrrd'', EvSetValue 1]. \<not> is_output ev"
    by auto
  then have "filter is_output
         [EvReadImage ''c4/img.nrrd'', EvReadImage ''c4/mask.nrrd'',
          EvCall demo_normalize (demo_tensor [0, 0, 1, 1] ''float32''),
          EvGetOriginalCase (Some ''c4/img.nrrd'') ''flat'',
          EvReadImage ''c4/mask.nrrd'', EvSetValue 1] = []"
    by (simp only: filter_empty_conv)
  with demo_load_c4 demo_getitem_c4 demo_case_c4 show ?thesis by blast
qed

end
